theory Spec2Isabelle
  imports Complex_Main "HOL-Library.Sublist" "HOL-Library.List_Lexorder"
begin

section \<open>Python values used by \<open>tools/generate_social_images.py\<close>\<close>

text \<open>
  A Python \<open>str\<close> is a sequence of Unicode code points, so a text is a list of natural
  numbers (\<open>len\<close>, slicing, \<open>strip\<close> and \<open>split\<close> all count code points).  ASCII literals
  of the source are written \<open>ascii ''...''\<close>.  Python's \<open>int\<close> is unbounded: \<open>int\<close>.
\<close>

type_synonym pystr = "nat list"

definition ascii :: "string \<Rightarrow> pystr" where
  "ascii s = map of_char s"

text \<open>The exceptions the script raises or catches, each with its message.\<close>

datatype error =
    ValueError pystr
  | FileNotFoundError pystr
  | OtherError pystr

fun is_ValueError :: "error + 'a \<Rightarrow> bool" where
  "is_ValueError (Inl (ValueError m)) = True"
| "is_ValueError r = False"

subsection \<open>\<open>str.strip\<close>, \<open>str.lstrip\<close>, \<open>str.split\<close>, \<open>str.join\<close>\<close>

text \<open>
  \<open>str.isspace\<close> for one code point (CPython's \<open>Py_UNICODE_ISSPACE\<close>): the characters
  \<open>strip()\<close> and \<open>split()\<close> without argument treat as whitespace.
\<close>

definition py_isspace :: "nat \<Rightarrow> bool" where
  "py_isspace c \<longleftrightarrow>
     (0x09 \<le> c \<and> c \<le> 0x0D) \<or> (0x1C \<le> c \<and> c \<le> 0x20) \<or> c = 0x85 \<or> c = 0xA0 \<or>
     c = 0x1680 \<or> (0x2000 \<le> c \<and> c \<le> 0x200A) \<or> c = 0x2028 \<or> c = 0x2029 \<or>
     c = 0x202F \<or> c = 0x205F \<or> c = 0x3000"

definition lstrip_ws :: "pystr \<Rightarrow> pystr" where
  "lstrip_ws s = dropWhile py_isspace s"

definition rstrip_ws :: "pystr \<Rightarrow> pystr" where
  "rstrip_ws s = rev (dropWhile py_isspace (rev s))"

definition strip :: "pystr \<Rightarrow> pystr" where
  "strip s = rstrip_ws (lstrip_ws s)"

text \<open>\<open>s.lstrip(chars)\<close>: drops every leading character that occurs in \<open>chars\<close>.\<close>

definition lstrip_chars :: "pystr \<Rightarrow> pystr \<Rightarrow> pystr" where
  "lstrip_chars chars s = dropWhile (\<lambda>c. c \<in> set chars) s"

text \<open>
  \<open>s.split()\<close>: the maximal runs of non-whitespace characters, in order.  \<open>cur\<close> is the
  word being read, kept reversed.
\<close>

fun split_aux :: "pystr \<Rightarrow> pystr \<Rightarrow> pystr list" where
  "split_aux cur [] = (if cur = [] then [] else [rev cur])"
| "split_aux cur (c # cs) =
     (if py_isspace c then (if cur = [] then split_aux [] cs else rev cur # split_aux [] cs)
      else split_aux (c # cur) cs)"

definition split :: "pystr \<Rightarrow> pystr list" where
  "split s = split_aux [] s"

text \<open>\<open>" ".join(ws)\<close>.\<close>

fun join_sp :: "pystr list \<Rightarrow> pystr" where
  "join_sp [] = []"
| "join_sp [w] = w"
| "join_sp (w # v # ws) = w @ [0x20] @ join_sp (v # ws)"

subsection \<open>\<open>int(s, 16)\<close>\<close>

text \<open>
  CPython's \<open>int(str, base)\<close> first maps the text to ASCII
  (\<open>_PyUnicode_TransformDecimalAndSpaceToASCII\<close>): a code point below 127 is kept, a
  Unicode space becomes a blank, a Unicode decimal digit becomes its ASCII digit, and
  anything else becomes \<open>?\<close>, where the text is cut.  The decimal digits of Unicode come
  in runs of ten consecutive code points \<open>0..9\<close>; \<open>decimal_zeros\<close> lists the first code
  point of each run (Unicode 14, as CPython 3.11 has it).
\<close>

definition decimal_zeros :: "nat list" where
  "decimal_zeros =
    [0x30, 0x660, 0x6F0, 0x7C0, 0x966, 0x9E6, 0xA66, 0xAE6, 0xB66, 0xBE6, 0xC66, 0xCE6,
     0xD66, 0xDE6, 0xE50, 0xED0, 0xF20, 0x1040, 0x1090, 0x17E0, 0x1810, 0x1946, 0x19D0,
     0x1A80, 0x1A90, 0x1B50, 0x1BB0, 0x1C40, 0x1C50, 0xA620, 0xA8D0, 0xA900, 0xA9D0,
     0xA9F0, 0xAA50, 0xABF0, 0xFF10, 0x104A0, 0x10D30, 0x11066, 0x110F0, 0x11136,
     0x111D0, 0x112F0, 0x11450, 0x114D0, 0x11650, 0x116C0, 0x11730, 0x118E0, 0x11950,
     0x11C50, 0x11D50, 0x11DA0, 0x16A60, 0x16AC0, 0x16B50, 0x1D7CE, 0x1D7D8, 0x1D7E2,
     0x1D7EC, 0x1D7F6, 0x1E140, 0x1E2F0, 0x1E950, 0x1FBF0]"

definition unicode_todecimal :: "nat \<Rightarrow> nat option" where
  "unicode_todecimal c =
     (case filter (\<lambda>z. z \<le> c \<and> c < z + 10) decimal_zeros of
        [] \<Rightarrow> None
      | z # _ \<Rightarrow> Some (c - z))"

fun transform_decimal_and_space :: "pystr \<Rightarrow> pystr" where
  "transform_decimal_and_space [] = []"
| "transform_decimal_and_space (c # cs) =
     (if c < 127 then c # transform_decimal_and_space cs
      else if py_isspace c then 0x20 # transform_decimal_and_space cs
      else (case unicode_todecimal c of
              None \<Rightarrow> [0x3F]
            | Some d \<Rightarrow> (0x30 + d) # transform_decimal_and_space cs))"

text \<open>\<open>Py_ISSPACE\<close>, the ASCII whitespace the number parser skips.\<close>

definition ascii_isspace :: "nat \<Rightarrow> bool" where
  "ascii_isspace c \<longleftrightarrow> c = 0x20 \<or> (0x09 \<le> c \<and> c \<le> 0x0D)"

text \<open>\<open>_PyLong_DigitValue\<close>: the value of a digit character, 37 for any other.\<close>

definition digit_value :: "nat \<Rightarrow> nat" where
  "digit_value c =
     (if 0x30 \<le> c \<and> c \<le> 0x39 then c - 0x30
      else if 0x61 \<le> c \<and> c \<le> 0x7A then c - 0x61 + 10
      else if 0x41 \<le> c \<and> c \<le> 0x5A then c - 0x41 + 10
      else 37)"

text \<open>
  The digit loop of \<open>long_from_binary_base\<close>: digits and single underscores are read;
  two underscores in a row are a syntax error (\<open>None\<close>).  The result is the value, the
  number of characters read, the last character read and the rest of the text.
\<close>

fun scan_digits :: "nat \<Rightarrow> nat \<Rightarrow> nat \<Rightarrow> int \<Rightarrow> pystr \<Rightarrow> (int \<times> nat \<times> nat \<times> pystr) option" where
  "scan_digits base n prev acc [] = Some (acc, n, prev, [])"
| "scan_digits base n prev acc (c # cs) =
     (if c = 0x5F then
        (if prev = 0x5F then None else scan_digits base (Suc n) c acc cs)
      else if digit_value c < base then
        scan_digits base (Suc n) c (acc * int base + int (digit_value c)) cs
      else Some (acc, n, prev, c # cs))"

text \<open>
  \<open>PyLong_FromString\<close> at base 16: leading whitespace, an optional sign, an optional
  \<open>0x\<close> or \<open>0X\<close> (after which one underscore may stand), the digits, trailing whitespace,
  and nothing else.  The message of CPython goes on with a colon and the \<open>repr\<close> of the
  literal (\<open>invalid literal for int() with base 16: 'zz'\<close>); \<open>invalid_literal\<close> holds
  the fixed part of the message only.
\<close>

definition invalid_literal :: "error" where
  "invalid_literal = ValueError (ascii ''invalid literal for int() with base 16'')"

definition long_from_string16 :: "pystr \<Rightarrow> error + int" where
  "long_from_string16 s =
     (let s1 = dropWhile ascii_isspace s;
          (sign, s2) = (case s1 of
                          c # cs \<Rightarrow> if c = 0x2B then (1, cs)
                                    else if c = 0x2D then (- 1, cs)
                                    else (1, s1)
                        | [] \<Rightarrow> (1::int, s1));
          s3 = (case s2 of
                  c # d # cs \<Rightarrow>
                    if c = 0x30 \<and> (d = 0x78 \<or> d = 0x58)
                    then (case cs of e # es \<Rightarrow> if e = 0x5F then es else cs | [] \<Rightarrow> cs)
                    else s2
                | _ \<Rightarrow> s2)
      in case s3 of
           [] \<Rightarrow> Inl invalid_literal
         | c # cs \<Rightarrow>
             if c = 0x5F then Inl invalid_literal
             else (case scan_digits 16 0 0 0 s3 of
                     None \<Rightarrow> Inl invalid_literal
                   | Some (v, n, prev, rest) \<Rightarrow>
                       if prev = 0x5F \<or> n = 0 then Inl invalid_literal
                       else if dropWhile ascii_isspace rest = [] then Inr (sign * v)
                       else Inl invalid_literal))"

definition py_int16 :: "pystr \<Rightarrow> error + int" where
  "py_int16 s = long_from_string16 (transform_decimal_and_space s)"

section \<open>\<open>hex_to_rgb\<close>\<close>

text \<open>
  \<^verbatim>\<open>
  def hex_to_rgb(hex_color: str) -> tuple[int, int, int]:
      value = hex_color.strip().lstrip("#")
      if len(value) != 6:
          raise ValueError(f"Expected #RRGGBB, got: {hex_color}")
      return (int(value[0:2], 16), int(value[2:4], 16), int(value[4:6], 16))
  \<close>
  The three \<open>int\<close> calls are evaluated from left to right, the first failure is raised.
\<close>

definition hex_to_rgb :: "pystr \<Rightarrow> error + (int \<times> int \<times> int)" where
  "hex_to_rgb hex_color =
     (let v = lstrip_chars (ascii ''#'') (strip hex_color) in
      if length v \<noteq> 6 then Inl (ValueError (ascii ''Expected #RRGGBB, got: '' @ hex_color))
      else case py_int16 (take 2 v) of
             Inl e \<Rightarrow> Inl e
           | Inr r \<Rightarrow>
               (case py_int16 (take 2 (drop 2 v)) of
                  Inl e \<Rightarrow> Inl e
                | Inr g \<Rightarrow>
                    (case py_int16 (take 2 (drop 4 v)) of
                       Inl e \<Rightarrow> Inl e
                     | Inr b \<Rightarrow> Inr (r, g, b))))"

section \<open>\<open>shape_text\<close>, \<open>text_width\<close> and \<open>wrap_text\<close>\<close>

text \<open>
  The script calls three library functions on text: \<open>arabic_reshaper.reshape\<close>,
  \<open>bidi.algorithm.get_display\<close> and Pillow's \<open>ImageDraw.textbbox\<close> (the bounding box
  \<open>(left, top, right, bottom)\<close> of a text drawn at the origin in a font).  They are the
  fields of the environment \<open>E\<close>; nothing is assumed about what they return.
\<close>

record 'font text_env =
  reshape :: "pystr \<Rightarrow> pystr"
  get_display :: "pystr \<Rightarrow> pystr"
  textbbox :: "pystr \<Rightarrow> 'font \<Rightarrow> int \<times> int \<times> int \<times> int"

text \<open>\<open>ARABIC_RE\<close> is the character class from U+0600 to U+06FF; \<open>ARABIC_RE.search(text)\<close>.\<close>

definition ARABIC_RE_search :: "pystr \<Rightarrow> bool" where
  "ARABIC_RE_search text = list_ex (\<lambda>c. 0x0600 \<le> c \<and> c \<le> 0x06FF) text"

text \<open>
  \<^verbatim>\<open>
  def shape_text(text: str) -> str:
      text = (text or "").strip()
      if not text:
          return ""
      if not ARABIC_RE.search(text):
          return text
      return get_display(arabic_reshaper.reshape(text))
  \<close>
  The argument is a \<open>str\<close>, for which \<open>text or ""\<close> is \<open>text\<close>.
\<close>

definition shape_text :: "('font, 'x) text_env_scheme \<Rightarrow> pystr \<Rightarrow> pystr" where
  "shape_text E text =
     (let text = strip text in
      if text = [] then []
      else if \<not> ARABIC_RE_search text then text
      else get_display E (reshape E text))"

text \<open>
  \<^verbatim>\<open>
  def text_width(draw, text, font) -> int:
      bbox = draw.textbbox((0, 0), text, font=font)
      return max(0, bbox[2] - bbox[0])
  \<close>
\<close>

definition text_width :: "('font, 'x) text_env_scheme \<Rightarrow> pystr \<Rightarrow> 'font \<Rightarrow> int" where
  "text_width E text font =
     (case textbbox E text font of (x0, y0, x1, y1) \<Rightarrow> max 0 (x1 - x0))"

text \<open>
  The \<open>for word in words\<close> loop of \<open>wrap_text\<close>, with its two mutable lists \<open>lines\<close> and
  \<open>current\<close> as arguments; the \<open>return lines\<close> inside the loop ends the recursion, and
  the code after the loop is the equation for the empty list of words.
  \<^verbatim>\<open>
      for word in words:
          candidate = " ".join([*current, word]) if current else word
          if text_width(draw, shape_text(candidate), font) <= max_width:
              current.append(word)
              continue
          if current:
              lines.append(" ".join(current))
              current = [word]
          else:
              lines.append(word)
          if len(lines) >= max_lines:
              return lines
      if current and len(lines) < max_lines:
          lines.append(" ".join(current))
      return lines
  \<close>
\<close>

fun wrap_loop ::
  "('font, 'x) text_env_scheme \<Rightarrow> 'font \<Rightarrow> int \<Rightarrow> int \<Rightarrow>
   pystr list \<Rightarrow> pystr list \<Rightarrow> pystr list \<Rightarrow> pystr list" where
  "wrap_loop E font max_width max_lines lines current [] =
     (if current \<noteq> [] \<and> int (length lines) < max_lines
      then lines @ [join_sp current] else lines)"
| "wrap_loop E font max_width max_lines lines current (word # words) =
     (let candidate = (if current \<noteq> [] then join_sp (current @ [word]) else word) in
      if text_width E (shape_text E candidate) font \<le> max_width
      then wrap_loop E font max_width max_lines lines (current @ [word]) words
      else
        (let (lines', current') =
               (if current \<noteq> [] then (lines @ [join_sp current], [word])
                else (lines @ [word], current))
         in if int (length lines') \<ge> max_lines then lines'
            else wrap_loop E font max_width max_lines lines' current' words))"

text \<open>
  \<^verbatim>\<open>
  def wrap_text(draw, text, font, max_width, max_lines) -> list[str]:
      words = (text or "").strip().split()
      if not words:
          return []
      lines = []
      current = []
      ...
  \<close>
\<close>

definition wrap_text ::
  "('font, 'x) text_env_scheme \<Rightarrow> pystr \<Rightarrow> 'font \<Rightarrow> int \<Rightarrow> int \<Rightarrow> pystr list" where
  "wrap_text E text font max_width max_lines =
     (let words = split (strip text) in
      if words = [] then []
      else wrap_loop E font max_width max_lines [] [] words)"

text \<open>
  A concrete environment for evaluating the functions: a monospaced font in which
  every code point is ten pixels wide, a reshaper that leaves the text as it is and a
  display order that reverses it.
\<close>

definition mono_env :: "unit text_env" where
  "mono_env = \<lparr> reshape = (\<lambda>s. s), get_display = rev,
                textbbox = (\<lambda>s f. (0, 0, 10 * int (length s), 12)) \<rparr>"

text \<open>
  A word, as \<open>split()\<close> returns it: not empty and free of whitespace.
\<close>

definition wordy :: "pystr \<Rightarrow> bool" where
  "wordy w \<longleftrightarrow> w \<noteq> [] \<and> list_all (\<lambda>c. \<not> py_isspace c) w"

section \<open>Images and \<open>card_with_shadow\<close>\<close>

text \<open>
  A Pillow image is its size and its pixels; \<open>pixels im (px, py)\<close> is the pixel in
  column \<open>px\<close> and row \<open>py\<close>, and only \<open>0 \<le> px < width\<close>, \<open>0 \<le> py < height\<close> are
  pixels of the image.  A pixel of mode \<open>L\<close> is a number, a pixel of mode \<open>RGBA\<close> four.
\<close>

type_synonym rgba = "nat \<times> nat \<times> nat \<times> nat"

record 'p image =
  width :: int
  height :: int
  pixels :: "int \<times> int \<Rightarrow> 'p"

definition in_image :: "('p, 'x) image_scheme \<Rightarrow> int \<times> int \<Rightarrow> bool" where
  "in_image im p = (case p of (px, py) \<Rightarrow> 0 \<le> px \<and> px < width im \<and> 0 \<le> py \<and> py < height im)"

text \<open>
  The calls the script makes to Pillow, with the arguments a refusal can depend on:
  the size of a new image; the size of the image drawn on, the box and the radius of
  a rounded rectangle; the size of the image and the radius of a blur; the sizes of
  the two images and the destination of a compositing.
\<close>

datatype pil_call =
    New_image "int \<times> int"
  | Rounded_rectangle "int \<times> int" "int \<times> int \<times> int \<times> int" int
  | Gaussian_blur "int \<times> int" int
  | Alpha_composite "int \<times> int" "int \<times> int" "int \<times> int"

text \<open>
  What Pillow computes is left open, as fields of the environment \<open>P\<close>: the calls it
  refuses, with the exception it raises then (its argument checks differ from version
  to version, and memory can run out); which pixels \<open>ImageDraw.rounded_rectangle\<close>
  paints and with which ink (for a box, a radius, a fill, an outline and an outline
  width; \<open>None\<close> leaves the pixel as it is); the pixels of a Gaussian blur; and how one
  pixel is composited over another.
\<close>

record pil_env =
  refuses :: "pil_call \<Rightarrow> error option"
  rounded_rectangle_L ::
    "int \<times> int \<times> int \<times> int \<Rightarrow> int \<Rightarrow> nat option \<Rightarrow> nat option \<Rightarrow> int \<Rightarrow> int \<times> int \<Rightarrow> nat option"
  rounded_rectangle_RGBA ::
    "int \<times> int \<times> int \<times> int \<Rightarrow> int \<Rightarrow> rgba option \<Rightarrow> rgba option \<Rightarrow> int \<Rightarrow> int \<times> int \<Rightarrow> rgba option"
  gaussian_blur :: "int \<Rightarrow> rgba image \<Rightarrow> int \<times> int \<Rightarrow> rgba"
  over :: "rgba \<Rightarrow> rgba \<Rightarrow> rgba"

text \<open>\<open>Image.new(mode, (w, h), color)\<close>; Pillow always refuses a negative size.\<close>

definition Image_new :: "pil_env \<Rightarrow> int \<times> int \<Rightarrow> 'p \<Rightarrow> error + 'p image" where
  "Image_new P dims color =
     (case dims of (w, h) \<Rightarrow>
        if w < 0 \<or> h < 0 then Inl (ValueError (ascii ''Width and height must be >= 0''))
        else (case refuses P (New_image dims) of
                Some e \<Rightarrow> Inl e
              | None \<Rightarrow> Inr \<lparr> width = w, height = h, pixels = (\<lambda>p. color) \<rparr>))"

text \<open>
  \<open>ImageDraw.Draw(im).rounded_rectangle(xy, radius, fill, outline, width)\<close> draws on
  \<open>im\<close> in place: painted pixels get their ink, the others and the size stay.  Pillow
  refuses a box whose second corner is left of or above the first.
\<close>

definition draw_rounded_rectangle ::
  "pil_env \<Rightarrow> (int \<times> int \<Rightarrow> 'p option) \<Rightarrow> int \<times> int \<times> int \<times> int \<Rightarrow> int \<Rightarrow> 'p image \<Rightarrow>
   error + 'p image" where
  "draw_rounded_rectangle P ink xy radius im =
     (case xy of (x0, y0, x1, y1) \<Rightarrow>
        if x1 < x0 then Inl (ValueError (ascii ''x1 must be greater than or equal to x0''))
        else if y1 < y0 then Inl (ValueError (ascii ''y1 must be greater than or equal to y0''))
        else (case refuses P (Rounded_rectangle (width im, height im) xy radius) of
                Some e \<Rightarrow> Inl e
              | None \<Rightarrow>
                  Inr (im\<lparr> pixels := (\<lambda>p. case ink p of None \<Rightarrow> pixels im p | Some c \<Rightarrow> c) \<rparr>)))"

text \<open>\<open>im.putalpha(alpha)\<close>: the alpha band of \<open>im\<close> becomes \<open>alpha\<close>, an image of the same size.\<close>

definition putalpha :: "rgba image \<Rightarrow> nat image \<Rightarrow> error + rgba image" where
  "putalpha im alpha =
     (if width alpha \<noteq> width im \<or> height alpha \<noteq> height im
      then Inl (ValueError (ascii ''images do not match''))
      else Inr (im\<lparr> pixels := (\<lambda>p. case pixels im p of (r, g, b, a) \<Rightarrow> (r, g, b, pixels alpha p)) \<rparr>))"

text \<open>\<open>im.filter(ImageFilter.GaussianBlur(radius))\<close>: a new image of the same size.\<close>

definition filter_GaussianBlur :: "pil_env \<Rightarrow> int \<Rightarrow> rgba image \<Rightarrow> error + rgba image" where
  "filter_GaussianBlur P radius im =
     (case refuses P (Gaussian_blur (width im, height im) radius) of
        Some e \<Rightarrow> Inl e
      | None \<Rightarrow> Inr (im\<lparr> pixels := gaussian_blur P radius im \<rparr>))"

text \<open>
  \<open>im.crop((x0, y0, x1, y1))\<close>: the region as a new image; what lies outside \<open>im\<close> is
  transparent black.
\<close>

definition crop :: "rgba image \<Rightarrow> int \<times> int \<times> int \<times> int \<Rightarrow> rgba image" where
  "crop im box =
     (case box of (x0, y0, x1, y1) \<Rightarrow>
        \<lparr> width = x1 - x0, height = y1 - y0,
          pixels = (\<lambda>(px, py). if in_image im (px + x0, py + y0) then pixels im (px + x0, py + y0)
                                else (0, 0, 0, 0)) \<rparr>)"

text \<open>\<open>Image.alpha_composite(im1, im2)\<close>: \<open>im2\<close> over \<open>im1\<close>, images of the same size.\<close>

definition alpha_composite :: "pil_env \<Rightarrow> rgba image \<Rightarrow> rgba image \<Rightarrow> error + rgba image" where
  "alpha_composite P im1 im2 =
     (if width im1 \<noteq> width im2 \<or> height im1 \<noteq> height im2
      then Inl (ValueError (ascii ''images do not match''))
      else Inr (im1\<lparr> pixels := (\<lambda>p. over P (pixels im1 p) (pixels im2 p)) \<rparr>))"

text \<open>
  \<open>im.paste(src, (x0, y0, x1, y1))\<close>: the pixels of \<open>im\<close> inside the box become those of
  \<open>src\<close>; the box is clipped to \<open>im\<close>.
\<close>

definition paste :: "rgba image \<Rightarrow> rgba image \<Rightarrow> int \<times> int \<times> int \<times> int \<Rightarrow> rgba image" where
  "paste im src box =
     (case box of (x0, y0, x1, y1) \<Rightarrow>
        im\<lparr> pixels := (\<lambda>(px, py).
              if x0 \<le> px \<and> px < x1 \<and> y0 \<le> py \<and> py < y1 \<and> in_image im (px, py)
              then pixels src (px - x0, py - y0) else pixels im (px, py)) \<rparr>)"

text \<open>
  The method \<open>base.alpha_composite(im, dest)\<close>, as Pillow writes it:
  \<^verbatim>\<open>
      box = tuple(dest) + (dest[0] + overlay.width, dest[1] + overlay.height)
      if box == (0, 0) + self.size:
          background = self
      else:
          background = self.crop(box)
      result = alpha_composite(background, overlay)
      self.paste(result, box)
  \<close>
  It changes \<open>base\<close> in place; the model returns the new \<open>base\<close>, or the error with
  \<open>base\<close> as it was (the checks before these lines, and whatever else Pillow refuses,
  are \<open>refuses\<close>).
\<close>

definition alpha_composite_onto ::
  "pil_env \<Rightarrow> rgba image \<Rightarrow> rgba image \<Rightarrow> int \<times> int \<Rightarrow> rgba image \<times> (error + unit)" where
  "alpha_composite_onto P self overlay dest =
     (case refuses P (Alpha_composite (width self, height self) (width overlay, height overlay) dest) of
        Some e \<Rightarrow> (self, Inl e)
      | None \<Rightarrow>
     (case dest of (dx, dy) \<Rightarrow>
        let box = (dx, dy, dx + width overlay, dy + height overlay);
            background = (if box = (0, 0, width self, height self) then self else crop self box)
        in (case alpha_composite P background overlay of
              Inl e \<Rightarrow> (self, Inl e)
            | Inr result \<Rightarrow> (paste self result box, Inr ()))))"

text \<open>
  \<^verbatim>\<open>
  def card_with_shadow(base, x, y, w, h, radius) -> tuple[int, int, int, int]:
      mask = Image.new("L", (w, h), 0)
      md = ImageDraw.Draw(mask)
      md.rounded_rectangle([0, 0, w, h], radius=radius, fill=255)

      shadow = Image.new("RGBA", (w, h), (0, 0, 0, 130))
      shadow.putalpha(mask)
      shadow = shadow.filter(ImageFilter.GaussianBlur(24))
      base.alpha_composite(shadow, (x, y + 18))

      card = Image.new("RGBA", (w, h), (255, 255, 255, 0))
      cd = ImageDraw.Draw(card)
      cd.rounded_rectangle([0, 0, w, h], radius=radius,
          fill=(255, 255, 255, 40), outline=(255, 255, 255, 90), width=2)
      base.alpha_composite(card, (x, y))
      return (x, y, x + w, y + h)
  \<close>
  \<open>base\<close> is changed in place, so the model returns the image \<open>base\<close> has become
  together with the value returned or the exception raised (\<open>mask_img\<close> and
  \<open>card_img\<close> are the source's \<open>mask\<close> and \<open>card\<close>).
\<close>

definition card_with_shadow ::
  "pil_env \<Rightarrow> rgba image \<Rightarrow> int \<Rightarrow> int \<Rightarrow> int \<Rightarrow> int \<Rightarrow> int \<Rightarrow>
   rgba image \<times> (error + (int \<times> int \<times> int \<times> int))" where
  "card_with_shadow P base x y w h radius =
     (case Image_new P (w, h) (0::nat) of
        Inl e \<Rightarrow> (base, Inl e)
      | Inr mask_img \<Rightarrow>
     (case draw_rounded_rectangle P
             (rounded_rectangle_L P (0, 0, w, h) radius (Some 255) None 1) (0, 0, w, h) radius mask_img of
        Inl e \<Rightarrow> (base, Inl e)
      | Inr mask_img \<Rightarrow>
     (case Image_new P (w, h) ((0, 0, 0, 130)::rgba) of
        Inl e \<Rightarrow> (base, Inl e)
      | Inr shadow \<Rightarrow>
     (case putalpha shadow mask_img of
        Inl e \<Rightarrow> (base, Inl e)
      | Inr shadow \<Rightarrow>
     (case filter_GaussianBlur P 24 shadow of
        Inl e \<Rightarrow> (base, Inl e)
      | Inr shadow \<Rightarrow>
     (case alpha_composite_onto P base shadow (x, y + 18) of
        (base, Inl e) \<Rightarrow> (base, Inl e)
      | (base, Inr u) \<Rightarrow>
     (case Image_new P (w, h) ((255, 255, 255, 0)::rgba) of
        Inl e \<Rightarrow> (base, Inl e)
      | Inr card_img \<Rightarrow>
     (case draw_rounded_rectangle P
             (rounded_rectangle_RGBA P (0, 0, w, h) radius
                (Some (255, 255, 255, 40)) (Some (255, 255, 255, 90)) 2) (0, 0, w, h) radius card_img of
        Inl e \<Rightarrow> (base, Inl e)
      | Inr card_img \<Rightarrow>
     (case alpha_composite_onto P base card_img (x, y) of
        (base, Inl e) \<Rightarrow> (base, Inl e)
      | (base, Inr u) \<Rightarrow> (base, Inr (x, y, x + w, y + h)))))))))))"

text \<open>
  A concrete Pillow for evaluating the functions: it refuses nothing but a negative
  size, the rounded rectangle paints its whole box with the fill, the blur leaves the
  image as it is, and compositing shows the upper pixel.
\<close>

definition flat_pil :: pil_env where
  "flat_pil = \<lparr>
     refuses = (\<lambda>c. None),
     rounded_rectangle_L = (\<lambda>(x0, y0, x1, y1) radius fill outline w (px, py).
        if x0 \<le> px \<and> px \<le> x1 \<and> y0 \<le> py \<and> py \<le> y1 then fill else None),
     rounded_rectangle_RGBA = (\<lambda>(x0, y0, x1, y1) radius fill outline w (px, py).
        if x0 \<le> px \<and> px \<le> x1 \<and> y0 \<le> py \<and> py \<le> y1 then fill else None),
     gaussian_blur = (\<lambda>radius im. pixels im),
     over = (\<lambda>below above. above) \<rparr>"

definition blank_canvas :: "rgba image" where
  "blank_canvas = \<lparr> width = 100, height = 100, pixels = (\<lambda>p. (29, 78, 216, 255)) \<rparr>"

section \<open>\<open>parse_product_page\<close>\<close>

text \<open>
  \<^verbatim>\<open>
  @dataclass(frozen=True)
  class ProductInfo:
      slug: str
      name_en: str
      desc_ar: str
      spec_ar: str
      price: str
      image_path: Path
      page_url: str
  \<close>
\<close>

record 'path ProductInfo =
  slug :: pystr
  name_en :: pystr
  desc_ar :: pystr
  spec_ar :: pystr
  price :: pystr
  image_path :: 'path
  page_url :: pystr

text \<open>
  What the script asks of a BeautifulSoup element: \<open>tag.get(name)\<close> (\<open>None\<close> when the
  attribute is missing) and \<open>tag.get_text(" ", strip=True)\<close>.  A parsed document is its
  \<open>select_one\<close>: the first element a CSS selector matches, if any.
\<close>

record tag =
  get_attr :: "pystr \<Rightarrow> pystr option"
  get_text :: pystr

type_synonym soup = "pystr \<Rightarrow> tag option"

text \<open>
  Paths, files and the HTML parser are the environment \<open>W\<close>: \<open>path.name\<close>, \<open>path.stem\<close>,
  \<open>str(path)\<close>, \<open>path.exists()\<close>, \<open>(path.parent / ref).resolve()\<close>,
  \<open>BeautifulSoup(path.read_text(encoding="utf-8", errors="replace"), "html.parser")\<close>
  and \<open>BeautifulSoup(s, "html.parser").get_text(" ", strip=True)\<close>.  The last four can
  raise: \<open>exists()\<close> swallows only the errors of a missing file (\<open>ENOENT\<close>, \<open>ENOTDIR\<close>,
  \<open>EBADF\<close>, \<open>ELOOP\<close>) and raises every other \<open>OSError\<close> of \<open>stat\<close>, such as
  \<open>[Errno 36] File name too long\<close> for a name of 300 characters or \<open>PermissionError\<close>;
  \<open>resolve()\<close> raises \<open>ValueError\<close> for a path with a null character and
  \<open>RuntimeError\<close> for a loop of symbolic links; reading raises when the file cannot be
  read; the parser raises when it rejects the markup.
\<close>

record 'path page_env =
  path_name :: "'path \<Rightarrow> pystr"
  path_stem :: "'path \<Rightarrow> pystr"
  path_str :: "'path \<Rightarrow> pystr"
  path_exists :: "'path \<Rightarrow> error + bool"
  resolve_beside :: "'path \<Rightarrow> pystr \<Rightarrow> error + 'path"
  read_soup :: "'path \<Rightarrow> error + soup"
  html_text :: "pystr \<Rightarrow> error + pystr"

text \<open>Python's \<open>a or b\<close> for an optional text \<open>a\<close>: \<open>None\<close> and \<open>""\<close> are false.\<close>

definition py_or :: "pystr option \<Rightarrow> pystr \<Rightarrow> pystr" where
  "py_or a b = (case a of None \<Rightarrow> b | Some s \<Rightarrow> if s = [] then b else s)"

text \<open>The CSS selectors and attribute names of the source, as it writes them.\<close>

abbreviation sel_title :: pystr where "sel_title \<equiv> ascii ''.product-page-info h1''"
abbreviation sel_desc :: pystr where "sel_desc \<equiv> ascii ''.product-page-desc''"
abbreviation sel_spec :: pystr where "sel_spec \<equiv> ascii ''.product-page-specs li span''"
abbreviation sel_price :: pystr where "sel_price \<equiv> ascii ''.product-page-price .price''"
abbreviation sel_img :: pystr where "sel_img \<equiv> ascii ''.product-page-img img''"
abbreviation sel_canonical :: pystr where
  "sel_canonical \<equiv> ascii ''link[rel='' @ [0x22] @ ascii ''canonical'' @ [0x22] @ ascii '']''"

text \<open>
  \<^verbatim>\<open>
  def parse_product_page(repo_root: Path, html_path: Path) -> ProductInfo:
      slug = html_path.stem
      soup = BeautifulSoup(html_path.read_text(encoding="utf-8", errors="replace"), "html.parser")

      h1 = soup.select_one(".product-page-info h1")
      if not h1:
          raise ValueError(f"Missing product title (<h1>) in {html_path.name}")

      name_en = (h1.get("data-en") or h1.get_text(" ", strip=True)).strip()
      name_en = BeautifulSoup(name_en, "html.parser").get_text(" ", strip=True)

      desc = soup.select_one(".product-page-desc")
      desc_ar = (desc.get("data-ar") if desc else "") or ""

      spec = soup.select_one(".product-page-specs li span")
      spec_ar = (spec.get("data-ar") if spec else "") or ""

      price_el = soup.select_one(".product-page-price .price")
      price = (price_el.get_text(" ", strip=True) if price_el else "").strip()

      img = soup.select_one(".product-page-img img")
      if not img or not img.get("src"):
          raise ValueError(f"Missing product image in {html_path.name}")
      image_path = (html_path.parent / img["src"]).resolve()
      if not image_path.exists():
          raise FileNotFoundError(f"Product image not found: {image_path}")

      canonical = soup.select_one('link[rel="canonical"]')
      page_url = canonical.get("href", "").strip() if canonical else ""

      return ProductInfo(slug=slug, name_en=name_en, desc_ar=desc_ar.strip(),
          spec_ar=spec_ar.strip(), price=price, image_path=image_path, page_url=page_url)
  \<close>
  An element of BeautifulSoup is true whatever it holds, so \<open>not h1\<close> is \<open>h1 is None\<close>.
  An exception of the environment (reading the page, parsing the title text again,
  \<open>resolve()\<close>, \<open>exists()\<close>) leaves the function as it is, at the place where the
  source makes the call.
\<close>

definition parse_product_page ::
  "('path, 'x) page_env_scheme \<Rightarrow> 'path \<Rightarrow> error + 'path ProductInfo" where
  "parse_product_page W html_path =
     (case read_soup W html_path of
        Inl e \<Rightarrow> Inl e
      | Inr soup \<Rightarrow>
     (case soup sel_title of
        None \<Rightarrow> Inl (ValueError (ascii ''Missing product title (<h1>) in '' @ path_name W html_path))
      | Some h1 \<Rightarrow>
     (case html_text W (strip (py_or (get_attr h1 (ascii ''data-en'')) (get_text h1))) of
        Inl e \<Rightarrow> Inl e
      | Inr name_en' \<Rightarrow>
          let desc = soup sel_desc;
              desc_ar = py_or (case desc of Some d \<Rightarrow> get_attr d (ascii ''data-ar'') | None \<Rightarrow> Some []) [];
              spec = soup sel_spec;
              spec_ar = py_or (case spec of Some s \<Rightarrow> get_attr s (ascii ''data-ar'') | None \<Rightarrow> Some []) [];
              price_el = soup sel_price;
              price = strip (case price_el of Some p \<Rightarrow> get_text p | None \<Rightarrow> []);
              img = soup sel_img
          in
          (case img of
             None \<Rightarrow> Inl (ValueError (ascii ''Missing product image in '' @ path_name W html_path))
           | Some im \<Rightarrow>
               if py_or (get_attr im (ascii ''src'')) [] = []
               then Inl (ValueError (ascii ''Missing product image in '' @ path_name W html_path))
               else
                 (case resolve_beside W html_path (py_or (get_attr im (ascii ''src'')) []) of
                    Inl e \<Rightarrow> Inl e
                  | Inr image_path' \<Rightarrow>
                 (case path_exists W image_path' of
                    Inl e \<Rightarrow> Inl e
                  | Inr found \<Rightarrow>
                      if \<not> found
                      then Inl (FileNotFoundError (ascii ''Product image not found: '' @ path_str W image_path'))
                      else
                        let canonical = soup sel_canonical;
                            page_url = (case canonical of
                                          Some c \<Rightarrow> strip (case get_attr c (ascii ''href'') of
                                                               None \<Rightarrow> [] | Some u \<Rightarrow> u)
                                        | None \<Rightarrow> [])
                        in Inr \<lparr> slug = path_stem W html_path, name_en = name_en',
                                 desc_ar = strip desc_ar, spec_ar = strip spec_ar, price = price,
                                 image_path = image_path', page_url = page_url \<rparr>))))))"

text \<open>
  Pages for evaluating the parser; a path is its text.  \<open>rad-140.html\<close> is complete,
  \<open>no-title.html\<close> has no title heading, \<open>no-img.html\<close> has a title and no photo,
  \<open>lost-img.html\<close> has a title and a photo reference to a file that does not exist,
  \<open>long-img.html\<close> has a title and a photo reference of 304 characters (\<open>a\<close> 300 times
  and \<open>.png\<close>), \<open>bare.html\<close> has a title and a photo and nothing else.  For a name
  of more than 255 characters \<open>exists()\<close> raises the \<open>OSError\<close>
  \<open>[Errno 36] File name too long: '<path>'\<close>.
\<close>

definition title_tag :: tag where
  "title_tag = \<lparr> get_attr = (\<lambda>a. if a = ascii ''data-en'' then Some (ascii ''RAD-140 '') else None),
                 get_text = ascii ''RAD-140 (Testolone)'' \<rparr>"

definition text_tag :: "pystr \<Rightarrow> pystr \<Rightarrow> pystr \<Rightarrow> tag" where
  "text_tag attr v t = \<lparr> get_attr = (\<lambda>a. if a = attr then Some v else None), get_text = t \<rparr>"

definition demo_soup :: "pystr \<Rightarrow> soup" where
  "demo_soup page sel =
     (if sel = sel_title then (if page = ascii ''no-title.html'' then None else Some title_tag)
      else if sel = sel_img then
        (if page = ascii ''no-img.html'' then None
         else if page = ascii ''lost-img.html''
           then Some (text_tag (ascii ''src'') (ascii ''img/gone.png'') [])
         else if page = ascii ''long-img.html''
           then Some (text_tag (ascii ''src'') (replicate 300 0x61 @ ascii ''.png'') [])
         else Some (text_tag (ascii ''src'') (ascii ''img/rad-140.png'') []))
      else if page \<noteq> ascii ''rad-140.html'' then None
      else if sel = sel_desc then Some (text_tag (ascii ''data-ar'') [0x645, 0x643, 0x645, 0x644] [])
      else if sel = sel_spec then Some (text_tag (ascii ''data-ar'') [0x20, 0x661, 0x660] [])
      else if sel = sel_price then Some (text_tag [] [] (ascii ''$ 59.99''))
      else if sel = sel_canonical
        then Some (text_tag (ascii ''href'') (ascii ''https://apex-labs.tech/products/rad-140.html'') [])
      else None)"

definition demo_exists :: "pystr \<Rightarrow> error + bool" where
  "demo_exists p =
     (if 255 < length p
      then Inl (OtherError (ascii ''[Errno 36] File name too long: '' @ [0x27] @ p @ [0x27]))
      else Inr (p = ascii ''img/rad-140.png'' \<or> p \<in> set (map ascii
        [''rad-140.html'', ''no-title.html'', ''no-img.html'', ''lost-img.html'',
         ''long-img.html'', ''bare.html''])))"

definition demo_pages :: "pystr page_env" where
  "demo_pages = \<lparr>
     path_name = (\<lambda>p. p),
     path_stem = takeWhile (\<lambda>c. c \<noteq> 0x2E),
     path_str = (\<lambda>p. p),
     path_exists = demo_exists,
     resolve_beside = (\<lambda>html ref. Inr ref),
     read_soup = (\<lambda>p. Inr (demo_soup p)),
     html_text = (\<lambda>s. Inr s) \<rparr>"
section \<open>The driver \<open>main\<close>\<close>

text \<open>
  \<^verbatim>\<open>
  SIZES: list[tuple[str, tuple[int, int]]] = [
      ("square", (1080, 1080)),
      ("story", (1080, 1920)),
      ("og", (1200, 630)),
  ]
  \<close>
\<close>

definition SIZES :: "(pystr \<times> int \<times> int) list" where
  "SIZES = [(ascii ''square'', (1080, 1080)), (ascii ''story'', (1080, 1920)),
            (ascii ''og'', (1200, 630))]"

text \<open>The parsed command line (\<open>args.all\<close>, \<open>args.product\<close>, ...).\<close>

record args =
  arg_all :: bool
  arg_product :: "pystr list"
  arg_site_only :: bool
  arg_dry_run :: bool
  arg_format :: "pystr option"

text \<open>
  The driver's environment adds to the parser's: \<open>Path(candidate).exists()\<close> for a
  font file (it can raise, as every \<open>exists()\<close>), the paths \<open>repo_root / "index.html"\<close>, \<open>out_dir / name\<close> and
  \<open>products_dir / f"{slug}.html"\<close>, the list \<open>sorted(products_dir.glob("*.html"))\<close>,
  \<open>dest.relative_to(repo_root)\<close> (a \<open>ValueError\<close> when \<open>dest\<close> is not below the
  repository), and what the two renderers do when called: \<open>None\<close> when the image was
  written, the exception otherwise.
\<close>

record 'path main_env = "'path page_env" +
  file_exists :: "pystr \<Rightarrow> error + bool"
  index_path :: 'path
  out_file :: "pystr \<Rightarrow> 'path"
  product_page :: "pystr \<Rightarrow> 'path"
  glob_product_pages :: "'path list"
  relative_to_repo :: "'path \<Rightarrow> error + pystr"
  render_site_image :: "'path \<Rightarrow> int \<times> int \<Rightarrow> pystr \<Rightarrow> pystr \<Rightarrow> pystr \<Rightarrow> pystr \<Rightarrow> error option"
  render_product_image ::
    "'path ProductInfo \<Rightarrow> 'path \<Rightarrow> int \<times> int \<Rightarrow> pystr \<Rightarrow> pystr \<Rightarrow> pystr \<Rightarrow> error option"

text \<open>\<open>sep.join(ws)\<close>.\<close>

fun join_with :: "pystr \<Rightarrow> pystr list \<Rightarrow> pystr" where
  "join_with sep [] = []"
| "join_with sep [w] = w"
| "join_with sep (w # v # ws) = w @ sep @ join_with sep (v # ws)"

text \<open>
  \<^verbatim>\<open>
  def find_font_file(candidates: Iterable[str]) -> str:
      for candidate in candidates:
          if not candidate:
              continue
          if Path(candidate).exists():
              return candidate
      raise FileNotFoundError(
          "No usable font found among: " + ", ".join(filter(None, candidates))
      )
  \<close>
  \<open>every\<close> is the whole list of candidates, for the message.
\<close>

fun find_font_loop :: "('path, 'x) main_env_scheme \<Rightarrow> pystr list \<Rightarrow> pystr list \<Rightarrow> error + pystr" where
  "find_font_loop W every [] =
     Inl (FileNotFoundError (ascii ''No usable font found among: '' @
            join_with (ascii '', '') (filter (\<lambda>c. c \<noteq> []) every)))"
| "find_font_loop W every (candidate # rest) =
     (if candidate = [] then find_font_loop W every rest
      else (case file_exists W candidate of
              Inl e \<Rightarrow> Inl e
            | Inr found \<Rightarrow> if found then Inr candidate else find_font_loop W every rest))"

definition find_font_file :: "('path, 'x) main_env_scheme \<Rightarrow> pystr list \<Rightarrow> error + pystr" where
  "find_font_file W candidates = find_font_loop W candidates candidates"

definition regular_fonts :: "pystr list" where
  "regular_fonts = map ascii
     [''C:/Windows/Fonts/segoeui.ttf'', ''C:/Windows/Fonts/arial.ttf'',
      ''/usr/share/fonts/truetype/dejavu/DejaVuSans.ttf'', ''/Library/Fonts/Arial Unicode.ttf'',
      ''/Library/Fonts/Arial.ttf'']"

definition bold_fonts :: "pystr list" where
  "bold_fonts = map ascii
     [''C:/Windows/Fonts/segoeuib.ttf'', ''C:/Windows/Fonts/arialbd.ttf'',
      ''/usr/share/fonts/truetype/dejavu/DejaVuSans-Bold.ttf'', ''/Library/Fonts/Arial Bold.ttf'']"

definition load_fonts :: "('path, 'x) main_env_scheme \<Rightarrow> error + (pystr \<times> pystr)" where
  "load_fonts W =
     (case find_font_file W regular_fonts of
        Inl e \<Rightarrow> Inl e
      | Inr regular \<Rightarrow>
          (case find_font_file W bold_fonts of
             Inl e \<Rightarrow> Inl e
           | Inr bold \<Rightarrow> Inr (regular, bold)))"

text \<open>
  \<^verbatim>\<open>
  def parse_site_tagline(repo_root: Path) -> str:
      index_path = repo_root / "index.html"
      if not index_path.exists():
          return <default>
      soup = BeautifulSoup(index_path.read_text(encoding="utf-8", errors="replace"), "html.parser")
      meta = soup.select_one('meta[property="og:description"]') or soup.select_one('meta[name="description"]')
      content = (meta.get("content") if meta else "") or ""
      return content.strip() or <default>
  \<close>
  where the default is the Arabic tagline below.
\<close>

definition default_tagline :: pystr where
  "default_tagline =
     [0x645, 0x643, 0x645, 0x644, 0x627, 0x62A, 0x20, 0x631, 0x64A, 0x627, 0x636, 0x64A, 0x629,
      0x20, 0x648, 0x645, 0x631, 0x643, 0x628, 0x627, 0x62A, 0x20, 0x628, 0x62D, 0x62B, 0x64A,
      0x629]"

definition parse_site_tagline :: "('path, 'x) main_env_scheme \<Rightarrow> error + pystr" where
  "parse_site_tagline W =
     (case path_exists W (index_path W) of
        Inl e \<Rightarrow> Inl e
      | Inr found \<Rightarrow>
      if \<not> found then Inr default_tagline
      else (case read_soup W (index_path W) of
             Inl e \<Rightarrow> Inl e
           | Inr soup \<Rightarrow>
               let meta = (case soup (ascii ''meta[property='' @ [0x22] @ ascii ''og:description'' @ [0x22] @ ascii '']'') of
                             Some m \<Rightarrow> Some m
                           | None \<Rightarrow> soup (ascii ''meta[name='' @ [0x22] @ ascii ''description'' @ [0x22] @ ascii '']''));
                   content = py_or (case meta of Some m \<Rightarrow> get_attr m (ascii ''content'')
                                    | None \<Rightarrow> Some []) []
               in Inr (py_or (Some (strip content)) default_tagline)))"

text \<open>
  What the run reports through \<open>log\<close>: the font error, a planned image of a dry run,
  a written image, the three kinds of item error (\<open>product page not found\<close>, a parse
  failure, a render failure) and the closing summary of \<open>_summary\<close>.
\<close>

datatype event =
    FontError error
  | DryRun pystr
  | OK pystr
  | PageNotFound pystr
  | ParseFailed pystr error
  | RenderFailed pystr error
  | Done nat nat

fun is_item_error :: "event \<Rightarrow> bool" where
  "is_item_error (PageNotFound n) = True"
| "is_item_error (ParseFailed n e) = True"
| "is_item_error (RenderFailed l e) = True"
| "is_item_error ev = False"

text \<open>The counters \<open>generated\<close> and \<open>errors\<close> of \<open>main\<close>, and the lines logged so far.\<close>

record run_state =
  generated :: nat
  errors :: nat
  logged :: "event list"

definition report :: "event \<Rightarrow> run_state \<Rightarrow> run_state" where
  "report ev st = st\<lparr> logged := logged st @ [ev] \<rparr>"

text \<open>
  The loop over \<open>sizes\<close> for the site images.  An exception here is not caught: the
  loop stops with it (\<open>Some e\<close>).
  \<^verbatim>\<open>
        for kind, size in sizes:
            dest = out_dir / f"site-{kind}.jpg"
            if args.dry_run:
                log.info("[dry-run]  site-%-6s ...", kind, *size, dest.relative_to(repo_root))
            else:
                render_site_image(out_path=dest, size=size, kind=kind, ...)
                log.info("OK  site-%-6s ...", kind, *size, dest.relative_to(repo_root))
            generated += 1
  \<close>
\<close>

fun site_images ::
  "('path, 'x) main_env_scheme \<Rightarrow> args \<Rightarrow> pystr \<times> pystr \<Rightarrow> pystr \<Rightarrow>
   (pystr \<times> int \<times> int) list \<Rightarrow> run_state \<Rightarrow> run_state \<times> error option" where
  "site_images W a fonts tagline [] st = (st, None)"
| "site_images W a fonts tagline ((kind, sz) # rest) st =
     (let dest = out_file W (ascii ''site-'' @ kind @ ascii ''.jpg'') in
      if arg_dry_run a then
        (case relative_to_repo W dest of
           Inl e \<Rightarrow> (st, Some e)
         | Inr rel \<Rightarrow>
             site_images W a fonts tagline rest
               ((report (DryRun (ascii ''site-'' @ kind)) st)\<lparr> generated := generated st + 1 \<rparr>))
      else
        (case render_site_image W dest sz kind (fst fonts) (snd fonts) tagline of
           Some e \<Rightarrow> (st, Some e)
         | None \<Rightarrow>
             (case relative_to_repo W dest of
                Inl e \<Rightarrow> (st, Some e)
              | Inr rel \<Rightarrow>
                  site_images W a fonts tagline rest
                    ((report (OK (ascii ''site-'' @ kind)) st)\<lparr> generated := generated st + 1 \<rparr>))))"

text \<open>
  The loop over \<open>sizes\<close> for one product.  In a dry run an exception is not caught;
  otherwise every exception of the rendering and of its log line is caught, reported
  and counted.
  \<^verbatim>\<open>
        for kind, size in sizes:
            dest = out_dir / f"{product.slug}-{kind}.jpg"
            label = f"{product.slug}-{kind}"
            if args.dry_run:
                log.info("[dry-run]  %-22s ...", label, *size, dest.relative_to(repo_root))
            else:
                try:
                    render_product_image(product=product, out_path=dest, size=size, kind=kind, ...)
                    log.info("OK  %-22s ...", label, *size, dest.relative_to(repo_root))
                except Exception as exc:
                    log.error("ERROR  %-22s  %s", label, exc)
                    errors += 1
                    continue
            generated += 1
  \<close>
\<close>

fun product_images ::
  "('path, 'x) main_env_scheme \<Rightarrow> args \<Rightarrow> pystr \<times> pystr \<Rightarrow> 'path ProductInfo \<Rightarrow>
   (pystr \<times> int \<times> int) list \<Rightarrow> run_state \<Rightarrow> run_state \<times> error option" where
  "product_images W a fonts product [] st = (st, None)"
| "product_images W a fonts product ((kind, sz) # rest) st =
     (let dest = out_file W (slug product @ ascii ''-'' @ kind @ ascii ''.jpg'');
          label = slug product @ ascii ''-'' @ kind
      in
      if arg_dry_run a then
        (case relative_to_repo W dest of
           Inl e \<Rightarrow> (st, Some e)
         | Inr rel \<Rightarrow>
             product_images W a fonts product rest
               ((report (DryRun label) st)\<lparr> generated := generated st + 1 \<rparr>))
      else
        (case (case render_product_image W product dest sz kind (fst fonts) (snd fonts) of
                 Some e \<Rightarrow> Some e
               | None \<Rightarrow> (case relative_to_repo W dest of Inl e \<Rightarrow> Some e | Inr rel \<Rightarrow> None)) of
           Some exc \<Rightarrow>
             product_images W a fonts product rest
               ((report (RenderFailed label exc) st)\<lparr> errors := errors st + 1 \<rparr>)
         | None \<Rightarrow>
             product_images W a fonts product rest
               ((report (OK label) st)\<lparr> generated := generated st + 1 \<rparr>)))"

text \<open>
  The loop over the product pages.  Of the exceptions of \<open>parse_product_page\<close> only
  \<open>ValueError\<close> and \<open>FileNotFoundError\<close> are caught; an exception of \<open>html.exists()\<close>
  is not caught.
  \<^verbatim>\<open>
    for html in html_files:
        if not html.exists():
            log.error("ERROR  product page not found: %s", html.name)
            errors += 1
            continue
        try:
            product = parse_product_page(repo_root, html)
        except (ValueError, FileNotFoundError) as exc:
            log.error("ERROR  %s - %s", html.name, exc)
            errors += 1
            continue
        for kind, size in sizes:
            ...
  \<close>
\<close>

fun product_pages ::
  "('path, 'x) main_env_scheme \<Rightarrow> args \<Rightarrow> pystr \<times> pystr \<Rightarrow> (pystr \<times> int \<times> int) list \<Rightarrow>
   'path list \<Rightarrow> run_state \<Rightarrow> run_state \<times> error option" where
  "product_pages W a fonts sizes [] st = (st, None)"
| "product_pages W a fonts sizes (html # rest) st =
     (case path_exists W html of
        Inl e \<Rightarrow> (st, Some e)
      | Inr found \<Rightarrow>
      if \<not> found then
        product_pages W a fonts sizes rest
          ((report (PageNotFound (path_name W html)) st)\<lparr> errors := errors st + 1 \<rparr>)
      else
        (case parse_product_page W html of
           Inl (ValueError m) \<Rightarrow>
             product_pages W a fonts sizes rest
               ((report (ParseFailed (path_name W html) (ValueError m)) st)\<lparr> errors := errors st + 1 \<rparr>)
         | Inl (FileNotFoundError m) \<Rightarrow>
             product_pages W a fonts sizes rest
               ((report (ParseFailed (path_name W html) (FileNotFoundError m)) st)\<lparr> errors := errors st + 1 \<rparr>)
         | Inl (OtherError m) \<Rightarrow> (st, Some (OtherError m))
         | Inr product \<Rightarrow>
             (case product_images W a fonts product sizes st of
                (st', Some e) \<Rightarrow> (st', Some e)
              | (st', None) \<Rightarrow> product_pages W a fonts sizes rest st')))"

text \<open>
  How \<open>main\<close> ends: it returns a status, or an exception escapes it.  The script ends
  with \<open>raise SystemExit(main())\<close>, so the status returned is the exit status of the
  process; an exception that escapes ends the process with status 1.
\<close>

datatype outcome = Return int | Raised error

fun exit_status :: "outcome \<Rightarrow> int" where
  "exit_status (Return n) = n"
| "exit_status (Raised e) = 1"

text \<open>\<open>_summary(generated, errors, t0)\<close> logs the two counters.\<close>

definition summary :: "run_state \<Rightarrow> run_state" where
  "summary st = report (Done (generated st) (errors st)) st"

text \<open>
  \<^verbatim>\<open>
  def main() -> int:
      ...
      sizes = [(k, s) for k, s in SIZES if args.format is None or k == args.format]
      try:
          font_regular_path, font_bold_path = load_fonts()
      except FileNotFoundError as exc:
          log.error("Font error: %s", exc)
          return 1
      generated = 0
      errors = 0
      tagline = parse_site_tagline(repo_root)
      if args.all or args.site_only or (not args.product and not args.all):
          for kind, size in sizes: ...
      if args.site_only:
          _summary(generated, errors, t0)
          return 0
      products_dir = repo_root / "products"
      if args.all:
          html_files = sorted(products_dir.glob("*.html"))
      else:
          wanted = {slug.strip() for slug in args.product if slug.strip()}
          if not wanted:
              _summary(generated, errors, t0)
              return 0
          html_files = [products_dir / f"{slug}.html" for slug in sorted(wanted)]
      for html in html_files: ...
      _summary(generated, errors, t0)
      return 1 if errors else 0
  \<close>
  The command line is already parsed (\<open>a\<close>).  Python compares texts code point by code
  point, as the lexicographic order on lists does.
\<close>

definition selected_sizes :: "args \<Rightarrow> (pystr \<times> int \<times> int) list" where
  "selected_sizes a = filter (\<lambda>(k, s). arg_format a = None \<or> Some k = arg_format a) SIZES"

definition site_selected :: "args \<Rightarrow> bool" where
  "site_selected a \<longleftrightarrow> arg_all a \<or> arg_site_only a \<or> (arg_product a = [] \<and> \<not> arg_all a)"

definition selected_pages :: "('path, 'x) main_env_scheme \<Rightarrow> args \<Rightarrow> 'path list option" where
  "selected_pages W a =
     (if arg_all a then Some (glob_product_pages W)
      else
        let wanted = remdups (filter (\<lambda>s. s \<noteq> []) (map strip (arg_product a))) in
        if wanted = [] then None
        else Some (map (\<lambda>s. product_page W (s @ ascii ''.html'')) (sort wanted)))"

definition main :: "('path, 'x) main_env_scheme \<Rightarrow> args \<Rightarrow> run_state \<times> outcome" where
  "main W a =
     (let sizes = selected_sizes a;
          st = \<lparr> generated = 0, errors = 0, logged = [] \<rparr>
      in
      case load_fonts W of
        Inl (FileNotFoundError m) \<Rightarrow> (report (FontError (FileNotFoundError m)) st, Return 1)
      | Inl e \<Rightarrow> (st, Raised e)
      | Inr fonts \<Rightarrow>
     (case parse_site_tagline W of
        Inl e \<Rightarrow> (st, Raised e)
      | Inr tagline \<Rightarrow>
     (case (if site_selected a then site_images W a fonts tagline sizes st else (st, None)) of
        (st, Some e) \<Rightarrow> (st, Raised e)
      | (st, None) \<Rightarrow>
          if arg_site_only a then (summary st, Return 0)
          else
            (case selected_pages W a of
               None \<Rightarrow> (summary st, Return 0)
             | Some html_files \<Rightarrow>
                 (case product_pages W a fonts sizes html_files st of
                    (st, Some e) \<Rightarrow> (st, Raised e)
                  | (st, None) \<Rightarrow> (summary st, Return (if errors st \<noteq> 0 then 1 else 0)))))))"

text \<open>
  What it means that an item errored, read off the environment and not off the run;
  these are the three places where \<open>main\<close> logs an \<open>ERROR\<close> line and adds one to
  \<open>errors\<close>.  A product page is missing when \<open>html.exists()\<close> is false.  Parsing fails
  when \<open>parse_product_page\<close> raises one of the two exceptions that \<open>main\<close> catches.
  A rendering errors when, outside a dry run, the body of the \<open>try\<close> raises: the call
  of \<open>render_product_image\<close>, or the \<open>dest.relative_to(repo_root)\<close> of its log line.
\<close>

definition page_missing :: "('path, 'x) main_env_scheme \<Rightarrow> 'path \<Rightarrow> bool" where
  "page_missing W html \<longleftrightarrow> path_exists W html = Inr False"

definition parse_fails :: "('path, 'x) main_env_scheme \<Rightarrow> 'path \<Rightarrow> bool" where
  "parse_fails W html \<longleftrightarrow>
     path_exists W html = Inr True \<and>
     (case parse_product_page W html of
        Inl (ValueError m) \<Rightarrow> True
      | Inl (FileNotFoundError m) \<Rightarrow> True
      | Inl (OtherError m) \<Rightarrow> False
      | Inr product \<Rightarrow> False)"

definition render_errors ::
  "('path, 'x) main_env_scheme \<Rightarrow> pystr \<times> pystr \<Rightarrow> 'path ProductInfo \<Rightarrow> pystr \<times> int \<times> int \<Rightarrow> bool" where
  "render_errors W fonts product ks =
     (case ks of (kind, sz) \<Rightarrow>
        let dest = out_file W (slug product @ ascii ''-'' @ kind @ ascii ''.jpg'') in
        render_product_image W product dest sz kind (fst fonts) (snd fonts) \<noteq> None
        \<or> isl (relative_to_repo W dest))"

definition render_fails ::
  "('path, 'x) main_env_scheme \<Rightarrow> args \<Rightarrow> pystr \<times> pystr \<Rightarrow> 'path \<Rightarrow> bool" where
  "render_fails W a fonts html \<longleftrightarrow>
     path_exists W html = Inr True \<and> \<not> arg_dry_run a \<and>
     (case parse_product_page W html of
        Inl e \<Rightarrow> False
      | Inr product \<Rightarrow> list_ex (render_errors W fonts product) (selected_sizes a))"

definition page_errors ::
  "('path, 'x) main_env_scheme \<Rightarrow> args \<Rightarrow> pystr \<times> pystr \<Rightarrow> 'path \<Rightarrow> bool" where
  "page_errors W a fonts html \<longleftrightarrow>
     page_missing W html \<or> parse_fails W html \<or> render_fails W a fonts html"

definition item_errored ::
  "('path, 'x) main_env_scheme \<Rightarrow> args \<Rightarrow> pystr \<times> pystr \<Rightarrow> bool" where
  "item_errored W a fonts \<longleftrightarrow>
     \<not> arg_site_only a \<and>
     (case selected_pages W a of
        None \<Rightarrow> False
      | Some html_files \<Rightarrow> list_ex (page_errors W a fonts) html_files)"

text \<open>
  The exceptions that \<open>main\<close> does not catch, read off the environment likewise: of
  a site image, its rendering and the \<open>dest.relative_to(repo_root)\<close> of its log line,
  also in a dry run; of a product page, \<open>html.exists()\<close>, an exception of
  \<open>parse_product_page\<close> other than the two that are caught, and in a dry run the
  \<open>dest.relative_to(repo_root)\<close> of a planned image; and before all items the reading
  of \<open>index.html\<close> for the tagline.
\<close>

definition site_image_raises ::
  "('path, 'x) main_env_scheme \<Rightarrow> args \<Rightarrow> pystr \<times> pystr \<Rightarrow> pystr \<Rightarrow> pystr \<times> int \<times> int \<Rightarrow> bool" where
  "site_image_raises W a fonts tagline ks =
     (case ks of (kind, sz) \<Rightarrow>
        let dest = out_file W (ascii ''site-'' @ kind @ ascii ''.jpg'') in
        (\<not> arg_dry_run a \<and> render_site_image W dest sz kind (fst fonts) (snd fonts) tagline \<noteq> None)
        \<or> isl (relative_to_repo W dest))"

definition plan_raises ::
  "('path, 'x) main_env_scheme \<Rightarrow> 'path ProductInfo \<Rightarrow> pystr \<times> int \<times> int \<Rightarrow> bool" where
  "plan_raises W product ks =
     (case ks of (kind, sz) \<Rightarrow>
        isl (relative_to_repo W (out_file W (slug product @ ascii ''-'' @ kind @ ascii ''.jpg''))))"

definition page_raises ::
  "('path, 'x) main_env_scheme \<Rightarrow> args \<Rightarrow> 'path \<Rightarrow> bool" where
  "page_raises W a html =
     (case path_exists W html of
        Inl e \<Rightarrow> True
      | Inr found \<Rightarrow>
          found \<and>
          (case parse_product_page W html of
             Inl (ValueError m) \<Rightarrow> False
           | Inl (FileNotFoundError m) \<Rightarrow> False
           | Inl (OtherError m) \<Rightarrow> True
           | Inr product \<Rightarrow> arg_dry_run a \<and> list_ex (plan_raises W product) (selected_sizes a)))"

definition exception_escapes ::
  "('path, 'x) main_env_scheme \<Rightarrow> args \<Rightarrow> pystr \<times> pystr \<Rightarrow> bool" where
  "exception_escapes W a fonts =
     (case parse_site_tagline W of
        Inl e \<Rightarrow> True
      | Inr tagline \<Rightarrow>
          (site_selected a \<and> list_ex (site_image_raises W a fonts tagline) (selected_sizes a)) \<or>
          (\<not> arg_site_only a \<and>
           (case selected_pages W a of
              None \<Rightarrow> False
            | Some html_files \<Rightarrow> list_ex (page_raises W a) html_files)))"

text \<open>
  Environments for running the driver on the pages above: one with the DejaVu fonts
  installed, where every rendering succeeds; the same one without any font; and the
  first one with \<open>--out /tmp/out\<close>, a directory outside the repository, where
  \<open>dest.relative_to(repo_root)\<close> raises its \<open>ValueError\<close>.
\<close>

definition demo_site :: "pystr main_env" where
  "demo_site = page_env.extend demo_pages
     \<lparr> file_exists = (\<lambda>f. Inr (f \<in> set (map ascii
          [''/usr/share/fonts/truetype/dejavu/DejaVuSans.ttf'',
           ''/usr/share/fonts/truetype/dejavu/DejaVuSans-Bold.ttf'']))),
       index_path = ascii ''index.html'',
       out_file = (\<lambda>n. ascii ''assets/social/'' @ n),
       product_page = (\<lambda>n. n),
       glob_product_pages = map ascii [''bare.html'', ''lost-img.html'', ''rad-140.html''],
       relative_to_repo = (\<lambda>p. Inr p),
       render_site_image = (\<lambda>dest sz kind regular bold tagline. None),
       render_product_image = (\<lambda>product dest sz kind regular bold. None) \<rparr>"

definition no_fonts :: "pystr main_env" where
  "no_fonts = demo_site\<lparr> file_exists := (\<lambda>f. Inr False) \<rparr>"

definition not_in_subpath :: "pystr \<Rightarrow> error" where
  "not_in_subpath p = ValueError ([0x27] @ p @ [0x27] @ ascii '' is not in the subpath of '' @
     [0x27] @ ascii ''/repo'' @ [0x27] @
     ascii '' OR one path is relative and the other is absolute.'')"

definition out_of_repo :: "pystr main_env" where
  "out_of_repo = demo_site\<lparr> out_file := (\<lambda>n. ascii ''/tmp/out/'' @ n),
                              relative_to_repo := (\<lambda>p. Inl (not_in_subpath p)) \<rparr>"

text \<open>
  Four command lines: \<open>--product rad-140 --format og\<close>,
  \<open>--product rad-140 --product nope --format og\<close>,
  \<open>--product rad-140 --format og --dry-run\<close> and \<open>--product long-img --format og\<close>.
\<close>

definition one_product :: args where
  "one_product = \<lparr> arg_all = False, arg_product = [ascii ''rad-140''], arg_site_only = False,
                    arg_dry_run = False, arg_format = Some (ascii ''og'') \<rparr>"

definition two_products :: args where
  "two_products = \<lparr> arg_all = False, arg_product = [ascii ''rad-140'', ascii ''nope''],
                     arg_site_only = False, arg_dry_run = False, arg_format = Some (ascii ''og'') \<rparr>"

definition dry_product :: args where
  "dry_product = \<lparr> arg_all = False, arg_product = [ascii ''rad-140''], arg_site_only = False,
                    arg_dry_run = True, arg_format = Some (ascii ''og'') \<rparr>"

definition long_product :: args where
  "long_product = \<lparr> arg_all = False, arg_product = [ascii ''long-img''], arg_site_only = False,
                     arg_dry_run = False, arg_format = Some (ascii ''og'') \<rparr>"

definition dejavu :: "pystr \<times> pystr" where
  "dejavu = (ascii ''/usr/share/fonts/truetype/dejavu/DejaVuSans.ttf'',
             ascii ''/usr/share/fonts/truetype/dejavu/DejaVuSans-Bold.ttf'')"

text \<open>What parsing \<open>rad-140.html\<close> gives.\<close>

definition rad_140 :: "pystr ProductInfo" where
  "rad_140 = \<lparr> slug = ascii ''rad-140'', name_en = ascii ''RAD-140'',
     desc_ar = [0x645, 0x643, 0x645, 0x644], spec_ar = [0x661, 0x660], price = ascii ''$ 59.99'',
     image_path = ascii ''img/rad-140.png'',
     page_url = ascii ''https://apex-labs.tech/products/rad-140.html'' \<rparr>"
section \<open>Properties of the text functions\<close>

subsection \<open>Evaluation on concrete inputs\<close>

text \<open>The definitions the simplifier unfolds to run the functions on a given input.\<close>

lemmas hex_eval = hex_to_rgb_def ascii_def strip_def lstrip_ws_def rstrip_ws_def
  lstrip_chars_def py_isspace_def py_int16_def long_from_string16_def ascii_isspace_def
  digit_value_def invalid_literal_def Let_def

lemmas text_eval = wrap_text_def shape_text_def text_width_def ARABIC_RE_search_def
  mono_env_def split_def ascii_def strip_def lstrip_ws_def rstrip_ws_def py_isspace_def Let_def

subsection \<open>Splitting and joining words\<close>

text \<open>
  \<open>split\<close> returns words; splitting words joined by blanks gives the words back;
  \<open>strip\<close> changes neither the characters nor the words of a text.
\<close>

lemma split_aux_wordy:
  "(cur \<noteq> [] \<longrightarrow> wordy (rev cur)) \<Longrightarrow> list_all wordy (split_aux cur s)"
  by (induction cur s rule: split_aux.induct) (auto simp: wordy_def)

lemma split_wordy: "list_all wordy (split s)"
  unfolding split_def by (rule split_aux_wordy) simp

lemma split_aux_word:
  "list_all (\<lambda>c. \<not> py_isspace c) w \<Longrightarrow> split_aux cur (w @ s) = split_aux (rev w @ cur) s"
  by (induction w arbitrary: cur) auto

lemma py_isspace_blank: "py_isspace 0x20"
  by (simp add: py_isspace_def)

lemma split_aux_join:
  "list_all wordy ws \<Longrightarrow> ws \<noteq> [] \<Longrightarrow> split_aux [] (join_sp ws) = ws"
proof (induction ws rule: join_sp.induct)
  case 1
  then show ?case by simp
next
  case (2 w)
  then have "split_aux [] (w @ []) = split_aux (rev w @ []) []"
    by (intro split_aux_word) (simp add: wordy_def)
  with 2 show ?case by (simp add: wordy_def)
next
  case (3 w v ws)
  have w: "w \<noteq> []" "list_all (\<lambda>c. \<not> py_isspace c) w"
    using 3 by (simp_all add: wordy_def)
  have "split_aux [] (w @ ([0x20] @ join_sp (v # ws))) = split_aux (rev w @ []) ([0x20] @ join_sp (v # ws))"
    by (rule split_aux_word) (rule w)
  also have "\<dots> = w # split_aux [] (join_sp (v # ws))"
    using w py_isspace_blank by simp
  also have "\<dots> = w # v # ws"
    using 3 by simp
  finally show ?case by simp
qed

lemma split_join: "list_all wordy ws \<Longrightarrow> split (join_sp ws) = ws"
  by (cases "ws = []") (simp_all add: split_def split_aux_join)

lemma wordy_split_single: "wordy w \<Longrightarrow> split w = [w]"
  using split_join [of "[w]"] by simp

lemma set_strip: "set (strip s) \<subseteq> set s"
  by (auto simp: strip_def rstrip_ws_def lstrip_ws_def dest!: set_dropWhileD)

lemma split_aux_nonempty:
  "split_aux cur s \<noteq> [] \<longleftrightarrow> cur \<noteq> [] \<or> list_ex (\<lambda>c. \<not> py_isspace c) s"
  by (induction cur s rule: split_aux.induct) auto

lemma split_nonempty: "split s \<noteq> [] \<longleftrightarrow> list_ex (\<lambda>c. \<not> py_isspace c) s"
  by (simp add: split_def split_aux_nonempty)

lemma split_aux_lstrip: "split_aux [] (dropWhile py_isspace s) = split_aux [] s"
  by (induction s) auto

lemma split_aux_spaces:
  "list_all py_isspace z \<Longrightarrow> split_aux cur z = (if cur = [] then [] else [rev cur])"
  by (induction z arbitrary: cur) auto

lemma split_aux_trailing:
  "list_all py_isspace z \<Longrightarrow> split_aux cur (t @ z) = split_aux cur t"
  by (induction cur t rule: split_aux.induct) (auto simp: split_aux_spaces)

lemma rstrip_ws_decomp: "\<exists>z. list_all py_isspace z \<and> s = rstrip_ws s @ z"
proof -
  have "rev (takeWhile py_isspace (rev s) @ dropWhile py_isspace (rev s)) = s"
    by simp
  then have "s = rstrip_ws s @ rev (takeWhile py_isspace (rev s))"
    unfolding rev_append rstrip_ws_def by simp
  moreover have "list_all py_isspace (rev (takeWhile py_isspace (rev s)))"
    by (auto simp: list_all_iff dest: set_takeWhileD)
  ultimately show ?thesis by blast
qed

lemma split_strip: "split (strip s) = split s"
proof -
  obtain z where z: "list_all py_isspace z" "lstrip_ws s = rstrip_ws (lstrip_ws s) @ z"
    using rstrip_ws_decomp by blast
  have "split_aux [] (rstrip_ws (lstrip_ws s)) = split_aux [] (rstrip_ws (lstrip_ws s) @ z)"
    using z(1) by (simp add: split_aux_trailing)
  also have "\<dots> = split_aux [] (lstrip_ws s)"
    using z(2) by simp
  also have "\<dots> = split_aux [] s"
    by (simp add: lstrip_ws_def split_aux_lstrip)
  finally show ?thesis by (simp add: split_def strip_def)
qed

subsection \<open>The loop of \<open>wrap_text\<close>\<close>

text \<open>
  Two invariants of the loop, for words as \<open>split\<close> returns them.  The first: the
  lines added are made of the words still to be placed, in order, none twice, and
  all of them unless the cap is reached.  The second: a line of two or more words
  was measured, shaped, before its last word was accepted.
\<close>

lemma wrap_loop_words:
  "list_all wordy current \<Longrightarrow> list_all wordy words \<Longrightarrow> int (length lines) < max_lines \<Longrightarrow>
   \<exists>new. wrap_loop E font max_width max_lines lines current words = lines @ new \<and>
     prefix (concat (map split new)) (current @ words) \<and>
     int (length (lines @ new)) \<le> max_lines \<and>
     (int (length (lines @ new)) < max_lines \<longrightarrow> concat (map split new) = current @ words) \<and>
     (current @ words \<noteq> [] \<longrightarrow> new \<noteq> []) \<and>
     list_all (\<lambda>l. join_sp (split l) = l) new"
proof (induction words arbitrary: lines current)
  case Nil
  show ?case
  proof (cases "current = []")
    case True
    then show ?thesis using Nil by simp
  next
    case False
    with Nil have "wrap_loop E font max_width max_lines lines current [] = lines @ [join_sp current]"
      by simp
    moreover have "split (join_sp current) = current"
      using Nil by (simp add: split_join)
    ultimately show ?thesis using Nil False
      by (intro exI [of _ "[join_sp current]"]) simp
  qed
next
  case (Cons word words)
  let ?cand = "if current \<noteq> [] then join_sp (current @ [word]) else word"
  have word: "wordy word" and words: "list_all wordy words"
    using Cons.prems by simp_all
  show ?case
  proof (cases "text_width E (shape_text E ?cand) font \<le> max_width")
    case True
    have "\<exists>new. wrap_loop E font max_width max_lines lines (current @ [word]) words = lines @ new \<and>
       prefix (concat (map split new)) ((current @ [word]) @ words) \<and>
       int (length (lines @ new)) \<le> max_lines \<and>
       (int (length (lines @ new)) < max_lines \<longrightarrow> concat (map split new) = (current @ [word]) @ words) \<and>
       ((current @ [word]) @ words \<noteq> [] \<longrightarrow> new \<noteq> []) \<and>
       list_all (\<lambda>l. join_sp (split l) = l) new"
      using Cons.prems word words by (intro Cons.IH) simp_all
    moreover have "wrap_loop E font max_width max_lines lines current (word # words)
        = wrap_loop E font max_width max_lines lines (current @ [word]) words"
      using True by simp
    ultimately show ?thesis by simp
  next
    case False
    define flushed where "flushed = (if current \<noteq> [] then join_sp current else word)"
    define current' where "current' = (if current \<noteq> [] then [word] else [])"
    have fl: "split flushed = (if current \<noteq> [] then current else [word])"
      using Cons.prems word by (simp add: flushed_def split_join wordy_split_single)
    have rest: "(if current \<noteq> [] then current else [word]) @ current' @ words = current @ word # words"
      by (simp add: current'_def)
    have step: "wrap_loop E font max_width max_lines lines current (word # words)
        = (if int (length (lines @ [flushed])) \<ge> max_lines then lines @ [flushed]
           else wrap_loop E font max_width max_lines (lines @ [flushed]) current' words)"
      using False by (simp add: flushed_def current'_def Let_def)
    show ?thesis
    proof (cases "int (length (lines @ [flushed])) \<ge> max_lines")
      case True
      with step have "wrap_loop E font max_width max_lines lines current (word # words) = lines @ [flushed]"
        by simp
      moreover have "prefix (concat (map split [flushed])) (current @ word # words)"
        using fl by (auto simp: prefix_def)
      moreover have "join_sp (split flushed) = flushed"
        using fl by (simp add: flushed_def)
      ultimately show ?thesis using True Cons.prems(3)
        by (intro exI [of _ "[flushed]"]) simp
    next
      case False
      have "\<exists>new. wrap_loop E font max_width max_lines (lines @ [flushed]) current' words = (lines @ [flushed]) @ new \<and>
         prefix (concat (map split new)) (current' @ words) \<and>
         int (length ((lines @ [flushed]) @ new)) \<le> max_lines \<and>
         (int (length ((lines @ [flushed]) @ new)) < max_lines \<longrightarrow> concat (map split new) = current' @ words) \<and>
         (current' @ words \<noteq> [] \<longrightarrow> new \<noteq> []) \<and>
         list_all (\<lambda>l. join_sp (split l) = l) new"
        using False word words by (intro Cons.IH) (simp_all add: current'_def)
      then obtain new where new:
        "wrap_loop E font max_width max_lines (lines @ [flushed]) current' words = (lines @ [flushed]) @ new"
        "prefix (concat (map split new)) (current' @ words)"
        "int (length ((lines @ [flushed]) @ new)) \<le> max_lines"
        "int (length ((lines @ [flushed]) @ new)) < max_lines \<longrightarrow> concat (map split new) = current' @ words"
        "list_all (\<lambda>l. join_sp (split l) = l) new"
        by blast
      have eq: "current @ word # words = split flushed @ (current' @ words)"
        using fl rest by simp
      have "wrap_loop E font max_width max_lines lines current (word # words) = lines @ (flushed # new)"
        using step False new(1) by simp
      moreover have "prefix (concat (map split (flushed # new))) (current @ word # words)"
        unfolding eq using new(2) by simp
      moreover have "int (length (lines @ flushed # new)) \<le> max_lines"
        using new(3) by simp
      moreover have "int (length (lines @ flushed # new)) < max_lines \<longrightarrow>
          concat (map split (flushed # new)) = current @ word # words"
        unfolding eq using new(4) by simp
      moreover have "list_all (\<lambda>l. join_sp (split l) = l) (flushed # new)"
        using new(5) fl by (simp add: flushed_def)
      ultimately show ?thesis
        by (intro exI [of _ "flushed # new"]) simp
    qed
  qed
qed

lemma wrap_loop_fits:
  "list_all wordy current \<Longrightarrow> list_all wordy words \<Longrightarrow>
   list_all (\<lambda>l. split l \<noteq> [] \<and>
       (2 \<le> length (split l) \<longrightarrow> text_width E (shape_text E l) font \<le> max_width)) lines \<Longrightarrow>
   (2 \<le> length current \<longrightarrow> text_width E (shape_text E (join_sp current)) font \<le> max_width) \<Longrightarrow>
   list_all (\<lambda>l. split l \<noteq> [] \<and>
       (2 \<le> length (split l) \<longrightarrow> text_width E (shape_text E l) font \<le> max_width))
     (wrap_loop E font max_width max_lines lines current words)"
proof (induction words arbitrary: lines current)
  case Nil
  then show ?case by (auto simp: split_join)
next
  case (Cons word words)
  let ?cand = "if current \<noteq> [] then join_sp (current @ [word]) else word"
  have word: "wordy word" and words: "list_all wordy words"
    using Cons.prems by simp_all
  show ?case
  proof (cases "text_width E (shape_text E ?cand) font \<le> max_width")
    case True
    have "2 \<le> length (current @ [word]) \<longrightarrow>
        text_width E (shape_text E (join_sp (current @ [word]))) font \<le> max_width"
      using True by (cases "current = []") simp_all
    then have "list_all (\<lambda>l. split l \<noteq> [] \<and>
       (2 \<le> length (split l) \<longrightarrow> text_width E (shape_text E l) font \<le> max_width))
       (wrap_loop E font max_width max_lines lines (current @ [word]) words)"
      using Cons.prems word words by (intro Cons.IH) simp_all
    then show ?thesis using True by simp
  next
    case False
    define flushed where "flushed = (if current \<noteq> [] then join_sp current else word)"
    define current' where "current' = (if current \<noteq> [] then [word] else [])"
    have fl: "split flushed = (if current \<noteq> [] then current else [word])"
      using Cons.prems word by (simp add: flushed_def split_join wordy_split_single)
    have step: "wrap_loop E font max_width max_lines lines current (word # words)
        = (if int (length (lines @ [flushed])) \<ge> max_lines then lines @ [flushed]
           else wrap_loop E font max_width max_lines (lines @ [flushed]) current' words)"
      using False by (simp add: flushed_def current'_def Let_def)
    have ok: "list_all (\<lambda>l. split l \<noteq> [] \<and>
       (2 \<le> length (split l) \<longrightarrow> text_width E (shape_text E l) font \<le> max_width))
       (lines @ [flushed])"
      using Cons.prems(3,4) fl by (simp add: flushed_def)
    show ?thesis
    proof (cases "int (length (lines @ [flushed])) \<ge> max_lines")
      case True
      with step ok show ?thesis by simp
    next
      case False
      have "list_all (\<lambda>l. split l \<noteq> [] \<and>
         (2 \<le> length (split l) \<longrightarrow> text_width E (shape_text E l) font \<le> max_width))
         (wrap_loop E font max_width max_lines (lines @ [flushed]) current' words)"
        using ok word words by (intro Cons.IH) (simp_all add: current'_def)
      with step False show ?thesis by simp
    qed
  qed
qed

text \<open>
  The cap only cuts: the lines returned under a cap are the first lines of what is
  returned under any larger cap, and under a cap larger than the number of words no
  word is left out (every line holds a word at least, so that cap is never reached).
\<close>

lemma wrap_loop_extends:
  "list_all wordy current \<Longrightarrow> list_all wordy words \<Longrightarrow> int (length lines) < max_lines \<Longrightarrow>
   \<exists>new. wrap_loop E font max_width max_lines lines current words = lines @ new"
  using wrap_loop_words [of current words lines max_lines E font max_width] by blast

lemma wrap_loop_cap:
  "list_all wordy current \<Longrightarrow> list_all wordy words \<Longrightarrow>
   int (length lines) < max_lines \<Longrightarrow> max_lines \<le> cap \<Longrightarrow>
   wrap_loop E font max_width max_lines lines current words =
     take (nat max_lines) (wrap_loop E font max_width cap lines current words)"
proof (induction words arbitrary: lines current)
  case Nil
  then show ?case by auto
next
  case (Cons word words)
  let ?cand = "if current \<noteq> [] then join_sp (current @ [word]) else word"
  have word: "wordy word" and words: "list_all wordy words"
    using Cons.prems by simp_all
  show ?case
  proof (cases "text_width E (shape_text E ?cand) font \<le> max_width")
    case True
    have "wrap_loop E font max_width max_lines lines (current @ [word]) words =
        take (nat max_lines) (wrap_loop E font max_width cap lines (current @ [word]) words)"
      using Cons.prems word words by (intro Cons.IH) simp_all
    then show ?thesis using True by simp
  next
    case False
    define flushed where "flushed = (if current \<noteq> [] then join_sp current else word)"
    define current' where "current' = (if current \<noteq> [] then [word] else [])"
    have cur': "list_all wordy current'"
      using word by (simp add: current'_def)
    have step: "wrap_loop E font max_width m lines current (word # words)
        = (if int (length (lines @ [flushed])) \<ge> m then lines @ [flushed]
           else wrap_loop E font max_width m (lines @ [flushed]) current' words)" for m
      using False by (simp add: flushed_def current'_def Let_def)
    show ?thesis
    proof (cases "int (length (lines @ [flushed])) \<ge> max_lines")
      case stop: True
      then have len: "int (length (lines @ [flushed])) = max_lines"
        using Cons.prems(3) by simp
      have "take (nat max_lines) (wrap_loop E font max_width cap lines current (word # words))
          = lines @ [flushed]"
      proof (cases "int (length (lines @ [flushed])) \<ge> cap")
        case True
        then show ?thesis using step [of cap] len by simp
      next
        case False
        then obtain new where
          "wrap_loop E font max_width cap (lines @ [flushed]) current' words = (lines @ [flushed]) @ new"
          using wrap_loop_extends [OF cur' words, of "lines @ [flushed]" cap E font max_width] by auto
        moreover have "nat max_lines = Suc (length lines)"
          using len by simp
        ultimately show ?thesis using step [of cap] False by simp
      qed
      then show ?thesis using step [of max_lines] stop by simp
    next
      case go: False
      then have "\<not> int (length (lines @ [flushed])) \<ge> cap"
        using Cons.prems(4) by simp
      moreover have "wrap_loop E font max_width max_lines (lines @ [flushed]) current' words =
          take (nat max_lines) (wrap_loop E font max_width cap (lines @ [flushed]) current' words)"
        using go Cons.prems(4) cur' words by (intro Cons.IH) simp_all
      ultimately show ?thesis using step [of max_lines] step [of cap] go by simp
    qed
  qed
qed


lemma length_le_concat:
  "list_all (\<lambda>l. f l \<noteq> []) ls \<Longrightarrow> length ls \<le> length (concat (map f ls))"
proof (induction ls)
  case Nil
  show ?case by simp
next
  case (Cons l ls)
  then have "1 \<le> length (f l)" by (cases "f l") simp_all
  with Cons show ?case by simp
qed

lemma wrap_loop_complete:
  assumes "list_all wordy words" and "int (length words) < cap"
  shows "concat (map split (wrap_loop E font max_width cap [] [] words)) = words"
proof -
  have cap: "int (length ([]::pystr list)) < cap" using assms(2) by simp
  obtain new where new: "wrap_loop E font max_width cap [] [] words = [] @ new"
      "prefix (concat (map split new)) ([] @ words)"
      "int (length ([] @ new)) < cap \<longrightarrow> concat (map split new) = [] @ words"
    using wrap_loop_words [OF _ assms(1) cap, of "[]" E font max_width] by auto
  have "list_all (\<lambda>l. split l \<noteq> [] \<and>
       (2 \<le> length (split l) \<longrightarrow> text_width E (shape_text E l) font \<le> max_width))
     (wrap_loop E font max_width cap [] [] words)"
    using assms(1) by (intro wrap_loop_fits) simp_all
  then have "list_all (\<lambda>l. split l \<noteq> []) new"
    using new(1) by (simp add: list_all_iff)
  then have "length new \<le> length (concat (map split new))"
    by (rule length_le_concat)
  moreover have "length (concat (map split new)) \<le> length words"
    using new(2) by (simp add: prefix_length_le)
  ultimately have "int (length new) < cap" using assms(2) by simp
  with new show ?thesis by simp
qed
subsection \<open>\<open>hex_to_rgb\<close>\<close>

text \<open>
  Claim C3, as amended: \<open>hex_to_rgb("#1D4ED8")\<close> is \<open>(29, 78, 216)\<close> (the middle byte
  \<open>4E\<close> is 78), the same text without the hash gives the same triple, and
  \<open>hex_to_rgb("#ABC")\<close> raises a \<open>ValueError\<close>.
\<close>

theorem hex_to_rgb_examples:
  "hex_to_rgb (ascii ''#1D4ED8'') = Inr (29, 78, 216) \<and>
   hex_to_rgb (ascii ''1D4ED8'') = Inr (29, 78, 216) \<and>
   is_ValueError (hex_to_rgb (ascii ''#ABC''))"
proof (intro conjI)
  show "hex_to_rgb (ascii ''#1D4ED8'') = Inr (29, 78, 216)" by (simp add: hex_eval)
  show "hex_to_rgb (ascii ''1D4ED8'') = Inr (29, 78, 216)" by (simp add: hex_eval)
  show "is_ValueError (hex_to_rgb (ascii ''#ABC''))" by (simp add: hex_eval)
qed

text \<open>The triple the claim gives, \<open>(29, 76, 216)\<close>, is not what the function returns.\<close>

theorem hex_to_rgb_blue_is_not_29_76_216:
  "hex_to_rgb (ascii ''#1D4ED8'') \<noteq> Inr (29, 76, 216)"
  by (simp add: hex_eval)

text \<open>
  Claim C9 at the input \<open>"-1-2-3"\<close>: the six characters are not six hexadecimal digits,
  yet \<open>int("-1", 16)\<close> is \<open>-1\<close>, so a triple is returned, and its components are
  negative.
\<close>

theorem hex_to_rgb_accepts_signed_pairs:
  "hex_to_rgb (ascii ''-1-2-3'') = Inr (- 1, - 2, - 3)"
  by (simp add: hex_eval)

subsection \<open>\<open>shape_text\<close>\<close>

text \<open>
  Claim C2, as amended: for every text with no code point from U+0600 to U+06FF,
  \<open>shape_text\<close> returns the text with its leading and trailing whitespace removed;
  neither library function is called.
\<close>

theorem shape_text_without_arabic:
  "\<not> ARABIC_RE_search text \<Longrightarrow> shape_text E text = strip text"
proof -
  assume "\<not> ARABIC_RE_search text"
  then have "\<not> ARABIC_RE_search (strip text)"
    using set_strip [of "text"] by (auto simp: ARABIC_RE_search_def list_ex_iff)
  then show ?thesis by (simp add: shape_text_def Let_def)
qed

theorem shape_text_without_arabic_witness:
  "\<not> ARABIC_RE_search (ascii '' RAD-140  '') \<and>
   shape_text mono_env (ascii '' RAD-140  '') = ascii ''RAD-140''"
proof -
  have h: "\<not> ARABIC_RE_search (ascii '' RAD-140  '')" by (simp add: text_eval)
  have s: "strip (ascii '' RAD-140  '') = ascii ''RAD-140''" by (simp add: text_eval)
  from shape_text_without_arabic [OF h, of mono_env] h s show ?thesis by simp
qed

text \<open>A text that starts with a blank is not returned unchanged.\<close>

theorem shape_text_drops_leading_blank:
  "\<not> ARABIC_RE_search (ascii '' a'') \<and> shape_text mono_env (ascii '' a'') \<noteq> ascii '' a''"
  by (simp add: text_eval)

subsection \<open>\<open>wrap_text\<close>\<close>

text \<open>
  Claim C1, as amended: for every text with at least one character that is not
  whitespace, every environment, font and \<open>max_width\<close>, and every \<open>max_lines \<ge> 1\<close>,
  \<open>wrap_text\<close> returns between 1 and \<open>max_lines\<close> lines; the words of the returned
  lines, read line after line, are a prefix of the words of the text; they are all
  the words of the text unless \<open>max_lines\<close> lines were returned; and every line is
  its own words joined by single blanks, so nothing is added to it. Words are lost
  to the cap only: the returned lines are the first \<open>max_lines\<close> lines of what
  \<open>wrap_text\<close> returns under any larger cap, whole lines and unchanged, and under a
  cap larger than the number of words the lines hold every word of the text, once
  and in order.
\<close>

theorem wrap_text_lines_are_word_prefix:
  assumes "list_ex (\<lambda>c. \<not> py_isspace c) text" and "1 \<le> max_lines"
  shows "1 \<le> length (wrap_text E text font max_width max_lines) \<and>
     int (length (wrap_text E text font max_width max_lines)) \<le> max_lines \<and>
     prefix (concat (map split (wrap_text E text font max_width max_lines))) (split text) \<and>
     (int (length (wrap_text E text font max_width max_lines)) < max_lines \<longrightarrow>
        concat (map split (wrap_text E text font max_width max_lines)) = split text) \<and>
     list_all (\<lambda>l. split l \<noteq> [] \<and> join_sp (split l) = l)
       (wrap_text E text font max_width max_lines) \<and>
     (\<forall>cap. max_lines \<le> cap \<longrightarrow>
        wrap_text E text font max_width max_lines
          = take (nat max_lines) (wrap_text E text font max_width cap)) \<and>
     (\<forall>cap. int (length (split text)) < cap \<longrightarrow>
        concat (map split (wrap_text E text font max_width cap)) = split text)"
proof -
  have w: "split (strip text) \<noteq> []"
    using assms(1) by (simp add: split_strip split_nonempty)
  have "\<exists>new. wrap_loop E font max_width max_lines [] [] (split (strip text)) = [] @ new \<and>
     prefix (concat (map split new)) ([] @ split (strip text)) \<and>
     int (length ([] @ new)) \<le> max_lines \<and>
     (int (length ([] @ new)) < max_lines \<longrightarrow> concat (map split new) = [] @ split (strip text)) \<and>
     ([] @ split (strip text) \<noteq> [] \<longrightarrow> new \<noteq> []) \<and>
     list_all (\<lambda>l. join_sp (split l) = l) new"
    using assms(2) by (intro wrap_loop_words) (simp_all add: split_wordy)
  moreover have eq: "wrap_text E text font max_width m
      = wrap_loop E font max_width m [] [] (split (strip text))" for m
    using w by (simp add: wrap_text_def)
  moreover have "list_all (\<lambda>l. split l \<noteq> [] \<and>
       (2 \<le> length (split l) \<longrightarrow> text_width E (shape_text E l) font \<le> max_width))
     (wrap_loop E font max_width max_lines [] [] (split (strip text)))"
    by (rule wrap_loop_fits) (simp_all add: split_wordy)
  ultimately have first: "1 \<le> length (wrap_text E text font max_width max_lines) \<and>
     int (length (wrap_text E text font max_width max_lines)) \<le> max_lines \<and>
     prefix (concat (map split (wrap_text E text font max_width max_lines))) (split text) \<and>
     (int (length (wrap_text E text font max_width max_lines)) < max_lines \<longrightarrow>
        concat (map split (wrap_text E text font max_width max_lines)) = split text) \<and>
     list_all (\<lambda>l. split l \<noteq> [] \<and> join_sp (split l) = l)
       (wrap_text E text font max_width max_lines)"
    using w by (auto simp: Suc_le_eq split_strip list_all_iff)
  have cut: "wrap_text E text font max_width max_lines
          = take (nat max_lines) (wrap_text E text font max_width cap)" if "max_lines \<le> cap" for cap
    unfolding eq using assms(2) that
    by (intro wrap_loop_cap) (simp_all add: split_wordy)
  have full: "concat (map split (wrap_text E text font max_width cap)) = split text"
    if "int (length (split text)) < cap" for cap
    using wrap_loop_complete [of "split (strip text)" cap E font max_width] that
    by (simp add: eq split_wordy split_strip)
  from first cut full show ?thesis by simp
qed

theorem wrap_text_lines_are_word_prefix_witness:
  "list_ex (\<lambda>c. \<not> py_isspace c) (ascii ''aa bb cc'') \<and> (1::int) \<le> 3 \<and>
   wrap_text mono_env (ascii ''aa bb cc'') () 50 3 = [ascii ''aa bb'', ascii ''cc''] \<and>
   1 \<le> length (wrap_text mono_env (ascii ''aa bb cc'') () 50 3) \<and>
   int (length (wrap_text mono_env (ascii ''aa bb cc'') () 50 3)) \<le> 3 \<and>
   prefix (concat (map split (wrap_text mono_env (ascii ''aa bb cc'') () 50 3)))
     (split (ascii ''aa bb cc'')) \<and>
   wrap_text mono_env (ascii ''aa bb cc'') () 50 1 = [ascii ''aa bb''] \<and>
   wrap_text mono_env (ascii ''aa bb cc'') () 50 1
     = take (nat 1) (wrap_text mono_env (ascii ''aa bb cc'') () 50 3) \<and>
   concat (map split (wrap_text mono_env (ascii ''aa bb cc'') () 50 4))
     = split (ascii ''aa bb cc'') \<and>
   list_ex (\<lambda>c. \<not> py_isspace c) (ascii ''aa bb'') \<and> (1::int) \<le> 1 \<and>
   wrap_text mono_env (ascii ''aa bb'') () 1000 1 = [ascii ''aa bb''] \<and>
   wrap_text mono_env (ascii ''aa bb'') () 1000 1
     = take (nat 1) (wrap_text mono_env (ascii ''aa bb'') () 1000 3)"
proof -
  have h1: "list_ex (\<lambda>c. \<not> py_isspace c) (ascii ''aa bb cc'')" by (simp add: text_eval)
  have h2: "(1::int) \<le> 3" by simp
  have v: "wrap_text mono_env (ascii ''aa bb cc'') () 50 3 = [ascii ''aa bb'', ascii ''cc'']"
    by (simp add: text_eval)
  have v1: "wrap_text mono_env (ascii ''aa bb cc'') () 50 1 = [ascii ''aa bb'']"
    by (simp add: text_eval)
  have n3: "int (length (split (ascii ''aa bb cc''))) < 4" by (simp add: text_eval)
  have h3: "list_ex (\<lambda>c. \<not> py_isspace c) (ascii ''aa bb'')" by (simp add: text_eval)
  have v2: "wrap_text mono_env (ascii ''aa bb'') () 1000 1 = [ascii ''aa bb'']"
    by (simp add: text_eval)
  note a = wrap_text_lines_are_word_prefix [OF h1 h2, of mono_env "()" 50]
  note b = wrap_text_lines_are_word_prefix [OF h1, of 1 mono_env "()" 50]
  note c = wrap_text_lines_are_word_prefix [OF h3, of 1 mono_env "()" 1000]
  have b1: "wrap_text mono_env (ascii ''aa bb cc'') () 50 1
     = take (nat 1) (wrap_text mono_env (ascii ''aa bb cc'') () 50 3)"
    using b by simp
  have a1: "concat (map split (wrap_text mono_env (ascii ''aa bb cc'') () 50 4))
     = split (ascii ''aa bb cc'')"
    using a n3 by blast
  have c1: "wrap_text mono_env (ascii ''aa bb'') () 1000 1
     = take (nat 1) (wrap_text mono_env (ascii ''aa bb'') () 1000 3)"
    using c by simp
  have a0: "1 \<le> length (wrap_text mono_env (ascii ''aa bb cc'') () 50 3) \<and>
   int (length (wrap_text mono_env (ascii ''aa bb cc'') () 50 3)) \<le> 3 \<and>
   prefix (concat (map split (wrap_text mono_env (ascii ''aa bb cc'') () 50 3)))
     (split (ascii ''aa bb cc''))"
    using a by blast
  from h1 h3 v v1 v2 a0 a1 b1 c1 show ?thesis by simp
qed

text \<open>
  A text of one blank is not empty, and no line is returned for it.
\<close>

theorem wrap_text_blank_text_has_no_line:
  "ascii '' '' \<noteq> [] \<and> (1::int) \<le> 3 \<and> length (wrap_text mono_env (ascii '' '') () 50 3) = 0"
  by (simp add: text_eval)

text \<open>
  Claim C8: every returned line of two or more words has a shaped width of at most
  \<open>max_width\<close>; a line that is wider than \<open>max_width\<close> is a single word.
\<close>

theorem wrap_text_wide_line_is_single_word:
  "l \<in> set (wrap_text E text font max_width max_lines) \<Longrightarrow>
   (2 \<le> length (split l) \<longrightarrow> text_width E (shape_text E l) font \<le> max_width) \<and>
   (max_width < text_width E (shape_text E l) font \<longrightarrow> length (split l) = 1)"
proof -
  assume l: "l \<in> set (wrap_text E text font max_width max_lines)"
  have "list_all (\<lambda>l. split l \<noteq> [] \<and>
       (2 \<le> length (split l) \<longrightarrow> text_width E (shape_text E l) font \<le> max_width))
     (wrap_loop E font max_width max_lines [] [] (split (strip text)))"
    by (rule wrap_loop_fits) (simp_all add: split_wordy)
  with l have "split l \<noteq> [] \<and>
       (2 \<le> length (split l) \<longrightarrow> text_width E (shape_text E l) font \<le> max_width)"
    by (auto simp: wrap_text_def Let_def list_all_iff split: if_splits)
  then show ?thesis
    by (cases "split l") (auto simp: not_le Suc_le_eq)
qed

theorem wrap_text_wide_line_is_single_word_witness:
  "wrap_text mono_env (ascii ''aa bb cccccccc'') () 50 3 = [ascii ''aa bb'', ascii ''cccccccc''] \<and>
   2 \<le> length (split (ascii ''aa bb'')) \<and>
   text_width mono_env (shape_text mono_env (ascii ''aa bb'')) () \<le> 50 \<and>
   50 < text_width mono_env (shape_text mono_env (ascii ''cccccccc'')) () \<and>
   length (split (ascii ''cccccccc'')) = 1"
proof -
  have v: "wrap_text mono_env (ascii ''aa bb cccccccc'') () 50 3 = [ascii ''aa bb'', ascii ''cccccccc'']"
    by (simp add: text_eval)
  have m1: "ascii ''aa bb'' \<in> set (wrap_text mono_env (ascii ''aa bb cccccccc'') () 50 3)"
    unfolding v by simp
  have m2: "ascii ''cccccccc'' \<in> set (wrap_text mono_env (ascii ''aa bb cccccccc'') () 50 3)"
    unfolding v by simp
  have two: "2 \<le> length (split (ascii ''aa bb''))" by (simp add: text_eval)
  have wide: "50 < text_width mono_env (shape_text mono_env (ascii ''cccccccc'')) ()" by (simp add: text_eval)
  from wrap_text_wide_line_is_single_word [OF m1] wrap_text_wide_line_is_single_word [OF m2]
    v two wide
  show ?thesis by simp
qed

section \<open>Properties of \<open>card_with_shadow\<close>\<close>

text \<open>
  The Pillow calls keep the size of the image they work on.  The method
  \<open>base.alpha_composite(im, dest)\<close> keeps the size of \<open>base\<close> and changes pixels only
  where \<open>im\<close> lies, whether it succeeds or not.
\<close>

lemma Image_new_size:
  "Image_new P (w, h) c = Inr im \<Longrightarrow> width im = w \<and> height im = h"
  by (auto simp: Image_new_def split: if_splits option.splits)

lemma draw_rounded_rectangle_size:
  "draw_rounded_rectangle P ink xy radius im = Inr im' \<Longrightarrow>
   width im' = width im \<and> height im' = height im"
  by (cases xy) (auto simp: draw_rounded_rectangle_def split: if_splits option.splits)

lemma putalpha_size:
  "putalpha im alpha = Inr im' \<Longrightarrow> width im' = width im \<and> height im' = height im"
  by (auto simp: putalpha_def split: if_splits)

lemma filter_GaussianBlur_size:
  "filter_GaussianBlur P radius im = Inr im' \<Longrightarrow> width im' = width im \<and> height im' = height im"
  by (auto simp: filter_GaussianBlur_def split: option.splits)

lemma alpha_composite_onto_size:
  "alpha_composite_onto P self overlay dest = (self', r) \<Longrightarrow>
   width self' = width self \<and> height self' = height self"
  by (cases dest)
     (auto simp: alpha_composite_onto_def alpha_composite_def paste_def Let_def
        split: sum.splits option.splits if_splits)

lemma alpha_composite_onto_frame:
  "alpha_composite_onto P self overlay (dx, dy) = (self', r) \<Longrightarrow>
   \<not> (dx \<le> px \<and> px < dx + width overlay \<and> dy \<le> py \<and> py < dy + height overlay) \<Longrightarrow>
   pixels self' (px, py) = pixels self (px, py)"
  by (auto simp: alpha_composite_onto_def alpha_composite_def paste_def Let_def
        split: sum.splits option.splits if_splits)

lemma alpha_composite_onto_ok:
  "refuses P (Alpha_composite (width self, height self) (width overlay, height overlay) dest) = None \<Longrightarrow>
   snd (alpha_composite_onto P self overlay dest) = Inr ()"
  by (cases dest) (auto simp: alpha_composite_onto_def alpha_composite_def crop_def Let_def)

lemma card_with_shadow_value:
  "snd (card_with_shadow P base x y w h radius) = Inr b \<Longrightarrow> b = (x, y, x + w, y + h)"
  by (auto simp: card_with_shadow_def split: sum.splits prod.splits)


lemma case_alpha_composite_onto:
  "refuses P (Alpha_composite (width b, height b) (width ov, height ov) d) = None \<Longrightarrow>
   (case alpha_composite_onto P b ov d of (b', Inl e) \<Rightarrow> f b' e | (b', Inr u) \<Rightarrow> g b' u)
     = g (fst (alpha_composite_onto P b ov d)) ()"
  using alpha_composite_onto_ok [of P b ov d]
  by (cases "alpha_composite_onto P b ov d") (auto split: sum.splits)

lemma card_with_shadow_returns:
  assumes "0 \<le> w" "0 \<le> h" "\<forall>c. refuses P c = None"
  shows "snd (card_with_shadow P base x y w h radius) = Inr (x, y, x + w, y + h)"
  using assms
  by (simp add: card_with_shadow_def Image_new_def draw_rounded_rectangle_def putalpha_def
      filter_GaussianBlur_def case_alpha_composite_onto)

lemmas card_eval = card_with_shadow_def Image_new_def draw_rounded_rectangle_def putalpha_def
  alpha_composite_onto_def alpha_composite_def filter_GaussianBlur_def crop_def paste_def
  in_image_def flat_pil_def blank_canvas_def Let_def

text \<open>
  Claim C6: whatever \<open>card_with_shadow\<close> returns is \<open>(x, y, x + w, y + h)\<close>, the box
  that starts at \<open>(x, y)\<close> and is \<open>w\<close> wide and \<open>h\<close> high, for every \<open>x\<close>, \<open>y\<close>, \<open>w\<close>, \<open>h\<close>
  and radius; and it does return for every rectangle (a width and a height that are not
  negative) and every radius when Pillow refuses none of the calls.
\<close>

theorem card_with_shadow_returns_box:
  "(\<forall>b. snd (card_with_shadow P base x y w h radius) = Inr b \<longrightarrow> b = (x, y, x + w, y + h)) \<and>
   (0 \<le> w \<and> 0 \<le> h \<and> (\<forall>c. refuses P c = None) \<longrightarrow>
      snd (card_with_shadow P base x y w h radius) = Inr (x, y, x + w, y + h))"
proof (intro conjI allI impI)
  fix b
  assume "snd (card_with_shadow P base x y w h radius) = Inr b"
  then show "b = (x, y, x + w, y + h)"
    by (rule card_with_shadow_value)
next
  assume "0 \<le> w \<and> 0 \<le> h \<and> (\<forall>c. refuses P c = None)"
  then show "snd (card_with_shadow P base x y w h radius) = Inr (x, y, x + w, y + h)"
    by (intro card_with_shadow_returns) simp_all
qed

theorem card_with_shadow_returns_box_witness:
  "(0::int) \<le> 30 \<and> (0::int) \<le> 40 \<and> (\<forall>c. refuses flat_pil c = None) \<and>
   snd (card_with_shadow flat_pil blank_canvas 10 20 30 40 5) = Inr (10, 20, 40, 60)"
proof -
  have r: "\<forall>c. refuses flat_pil c = None" by (simp add: flat_pil_def)
  have "(0::int) \<le> 30 \<and> (0::int) \<le> 40 \<and> (\<forall>c. refuses flat_pil c = None)"
    using r by simp
  then have "snd (card_with_shadow flat_pil blank_canvas 10 20 30 40 5) = Inr (10, 20, 10 + 30, 20 + 40)"
    by (rule card_with_shadow_returns_box [of flat_pil blank_canvas 10 20 30 40 5,
          THEN conjunct2, THEN mp])
  then show ?thesis using r by simp
qed

text \<open>
  Claim C10: \<open>card_with_shadow\<close> leaves the width and the height of \<open>base\<close> as they
  were, and every pixel \<open>(px, py)\<close> outside the card rectangle \<open>[x, x+w] \<times> [y, y+h]\<close> and
  outside the shadow rectangle \<open>[x, x+w] \<times> [y+18, y+h+18]\<close> as it was; this holds for
  every Pillow pixel arithmetic and also when a call raises.
\<close>

theorem card_with_shadow_frame:
  "width (fst (card_with_shadow P base x y w h radius)) = width base \<and>
   height (fst (card_with_shadow P base x y w h radius)) = height base \<and>
   (\<not> (x \<le> px \<and> px \<le> x + w \<and> (y \<le> py \<and> py \<le> y + h \<or> y + 18 \<le> py \<and> py \<le> y + h + 18)) \<longrightarrow>
     pixels (fst (card_with_shadow P base x y w h radius)) (px, py) = pixels base (px, py))"
proof -
  define ok where "ok b \<longleftrightarrow> width b = width base \<and> height b = height base \<and>
    (\<not> (x \<le> px \<and> px \<le> x + w \<and> (y \<le> py \<and> py \<le> y + h \<or> y + 18 \<le> py \<and> py \<le> y + h + 18)) \<longrightarrow>
     pixels b (px, py) = pixels base (px, py))" for b :: "rgba image"
  have ok_base: "ok base" by (simp add: ok_def)
  have step: "ok b'"
    if "ok b" "width ov = w" "height ov = h" "d = y \<or> d = y + 18"
      "alpha_composite_onto P b ov (x, d) = (b', r)" for b b' ov d r
  proof -
    have "width b' = width b" "height b' = height b"
      using alpha_composite_onto_size [OF that(5)] by simp_all
    moreover have "pixels b' (px, py) = pixels b (px, py)"
      if "\<not> (x \<le> px \<and> px \<le> x + w \<and> (y \<le> py \<and> py \<le> y + h \<or> y + 18 \<le> py \<and> py \<le> y + h + 18))"
      using alpha_composite_onto_frame [OF \<open>alpha_composite_onto P b ov (x, d) = (b', r)\<close>, of px py]
        that \<open>width ov = w\<close> \<open>height ov = h\<close> \<open>d = y \<or> d = y + 18\<close> by auto
    ultimately show ?thesis using \<open>ok b\<close> by (auto simp: ok_def)
  qed
  have "ok (fst (card_with_shadow P base x y w h radius))"
  proof (cases "Image_new P (w, h) (0::nat)")
    case (Inl e)
    then show ?thesis using ok_base by (simp add: card_with_shadow_def)
  next
    case mask0: (Inr mask0)
    show ?thesis
    proof (cases "draw_rounded_rectangle P
             (rounded_rectangle_L P (0, 0, w, h) radius (Some 255) None 1) (0, 0, w, h) radius mask0")
      case (Inl e)
      then show ?thesis using ok_base mask0 by (simp add: card_with_shadow_def)
    next
      case mask1: (Inr mask1)
      show ?thesis
      proof (cases "Image_new P (w, h) ((0, 0, 0, 130)::rgba)")
        case (Inl e)
        then show ?thesis using ok_base mask0 mask1 by (simp add: card_with_shadow_def)
      next
        case sh0: (Inr sh0)
        show ?thesis
        proof (cases "putalpha sh0 mask1")
          case (Inl e)
          then show ?thesis using ok_base mask0 mask1 sh0 by (simp add: card_with_shadow_def)
        next
          case sh1: (Inr sh1)
          show ?thesis
          proof (cases "filter_GaussianBlur P 24 sh1")
            case (Inl e)
            then show ?thesis using ok_base mask0 mask1 sh0 sh1 by (simp add: card_with_shadow_def)
          next
            case sh2: (Inr sh2)
            have sz: "width sh2 = w" "height sh2 = h"
              using Image_new_size [OF sh0] putalpha_size [OF sh1] filter_GaussianBlur_size [OF sh2]
              by simp_all
            obtain b1 r1 where c1: "alpha_composite_onto P base sh2 (x, y + 18) = (b1, r1)"
              by fastforce
            have ok1: "ok b1"
              using step [OF ok_base sz _ c1] by simp
            note pre = mask0 mask1 sh0 sh1 sh2 c1
            show ?thesis
            proof (cases r1)
              case (Inl e)
              then show ?thesis using ok1 pre by (simp add: card_with_shadow_def)
            next
              case u1: (Inr u1)
              show ?thesis
              proof (cases "Image_new P (w, h) ((255, 255, 255, 0)::rgba)")
                case (Inl e)
                then show ?thesis using ok1 pre u1 by (simp add: card_with_shadow_def)
              next
                case cd0: (Inr cd0)
                show ?thesis
                proof (cases "draw_rounded_rectangle P
                    (rounded_rectangle_RGBA P (0, 0, w, h) radius
                       (Some (255, 255, 255, 40)) (Some (255, 255, 255, 90)) 2) (0, 0, w, h) radius cd0")
                  case (Inl e)
                  then show ?thesis using ok1 pre u1 cd0 by (simp add: card_with_shadow_def)
                next
                  case cd1: (Inr cd1)
                  have szc: "width cd1 = w" "height cd1 = h"
                    using Image_new_size [OF cd0] draw_rounded_rectangle_size [OF cd1] by simp_all
                  obtain b2 r2 where c2: "alpha_composite_onto P b1 cd1 (x, y) = (b2, r2)"
                    by fastforce
                  have ok2: "ok b2"
                    using step [OF ok1 szc _ c2] by simp
                  show ?thesis using ok2 pre u1 cd0 cd1 c2
                    by (cases r2) (simp_all add: card_with_shadow_def)
                qed
              qed
            qed
          qed
        qed
      qed
    qed
  qed
  then show ?thesis by (simp add: ok_def)
qed

theorem card_with_shadow_frame_witness:
  "\<not> ((10::int) \<le> 5 \<and> (5::int) \<le> 10 + 30 \<and>
      ((20::int) \<le> 70 \<and> (70::int) \<le> 20 + 40 \<or> (20::int) + 18 \<le> 70 \<and> (70::int) \<le> 20 + 40 + 18)) \<and>
   width (fst (card_with_shadow flat_pil blank_canvas 10 20 30 40 5)) = 100 \<and>
   height (fst (card_with_shadow flat_pil blank_canvas 10 20 30 40 5)) = 100 \<and>
   pixels (fst (card_with_shadow flat_pil blank_canvas 10 20 30 40 5)) (5, 70) = (29, 78, 216, 255) \<and>
   pixels (fst (card_with_shadow flat_pil blank_canvas 10 20 30 40 5)) (10, 20) = (255, 255, 255, 40) \<and>
   pixels (fst (card_with_shadow flat_pil blank_canvas 10 20 30 40 5)) (39, 77) = (0, 0, 0, 255)"
proof -
  have inside: "pixels (fst (card_with_shadow flat_pil blank_canvas 10 20 30 40 5)) (10, 20) = (255, 255, 255, 40)"
    by (simp add: card_eval split: prod.splits)
  have shadow: "pixels (fst (card_with_shadow flat_pil blank_canvas 10 20 30 40 5)) (39, 77) = (0, 0, 0, 255)"
    by (simp add: card_eval split: prod.splits)
  from card_with_shadow_frame [of flat_pil blank_canvas 10 20 30 40 5 5 70] inside shadow
  show ?thesis by (simp add: blank_canvas_def)
qed

section \<open>Properties of \<open>parse_product_page\<close>\<close>





section \<open>Properties of the driver\<close>

text \<open>
  The site loop ends normally, with the error count as it was, exactly when no site
  image raises; otherwise an exception escapes it.
\<close>

lemma site_images_ok:
  "\<not> list_ex (site_image_raises W a fonts tagline) sizes \<Longrightarrow>
   \<exists>st'. site_images W a fonts tagline sizes st = (st', None) \<and> errors st' = errors st"
proof (induction sizes arbitrary: st)
  case Nil
  then show ?case by simp
next
  case (Cons ks sizes)
  obtain kind sz where ks: "ks = (kind, sz)" by (cases ks)
  have rest: "\<not> list_ex (site_image_raises W a fonts tagline) sizes"
    and this_one: "\<not> site_image_raises W a fonts tagline (kind, sz)"
    using Cons.prems by (simp_all add: ks)
  obtain rel where rel: "relative_to_repo W (out_file W (ascii ''site-'' @ kind @ ascii ''.jpg'')) = Inr rel"
    using this_one by (cases "relative_to_repo W (out_file W (ascii ''site-'' @ kind @ ascii ''.jpg''))")
      (simp_all add: site_image_raises_def Let_def)
  show ?case
  proof (cases "arg_dry_run a")
    case True
    then show ?thesis
      using Cons.IH [OF rest, of "(report (DryRun (ascii ''site-'' @ kind)) st)\<lparr>generated := generated st + 1\<rparr>"] rel
      by (simp add: ks report_def)
  next
    case False
    then have "render_site_image W (out_file W (ascii ''site-'' @ kind @ ascii ''.jpg'')) sz kind
        (fst fonts) (snd fonts) tagline = None"
      using this_one by (simp add: site_image_raises_def Let_def)
    then show ?thesis
      using Cons.IH [OF rest, of "(report (OK (ascii ''site-'' @ kind)) st)\<lparr>generated := generated st + 1\<rparr>"] rel False
      by (simp add: ks report_def)
  qed
qed

lemma site_images_raises:
  "list_ex (site_image_raises W a fonts tagline) sizes \<Longrightarrow>
   snd (site_images W a fonts tagline sizes st) \<noteq> None"
proof (induction sizes arbitrary: st)
  case Nil
  then show ?case by simp
next
  case (Cons ks sizes)
  obtain kind sz where ks: "ks = (kind, sz)" by (cases ks)
  show ?case
  proof (cases "site_image_raises W a fonts tagline (kind, sz)")
    case True
    then show ?thesis
      by (auto simp: ks site_image_raises_def Let_def split: sum.splits option.splits)
  next
    case False
    then have "list_ex (site_image_raises W a fonts tagline) sizes"
      using Cons.prems by (simp add: ks)
    then show ?thesis
      using Cons.IH by (auto simp: ks Let_def split: sum.splits option.splits)
  qed
qed

text \<open>
  The loop over the images of a product.  In a dry run it ends normally, with the
  error count as it was, exactly when no log line raises, and otherwise an exception
  escapes it.  Outside a dry run it always ends normally, and it has raised the
  error count exactly when a rendering errored.
\<close>

lemma product_images_dry_ok:
  "arg_dry_run a \<Longrightarrow> \<not> list_ex (plan_raises W product) sizes \<Longrightarrow>
   \<exists>st'. product_images W a fonts product sizes st = (st', None) \<and> errors st' = errors st"
proof (induction sizes arbitrary: st)
  case Nil
  then show ?case by simp
next
  case (Cons ks sizes)
  obtain kind sz where ks: "ks = (kind, sz)" by (cases ks)
  have rest: "\<not> list_ex (plan_raises W product) sizes"
    and this_one: "\<not> plan_raises W product (kind, sz)"
    using Cons.prems by (simp_all add: ks)
  obtain rel where rel:
    "relative_to_repo W (out_file W (slug product @ ascii ''-'' @ kind @ ascii ''.jpg'')) = Inr rel"
    using this_one
    by (cases "relative_to_repo W (out_file W (slug product @ ascii ''-'' @ kind @ ascii ''.jpg''))")
      (simp_all add: plan_raises_def)
  show ?case
    using Cons.IH [OF Cons.prems(1) rest,
        of "(report (DryRun (slug product @ ascii ''-'' @ kind)) st)\<lparr>generated := generated st + 1\<rparr>"]
      rel Cons.prems(1)
    by (simp add: ks report_def)
qed

lemma product_images_dry_raises:
  "arg_dry_run a \<Longrightarrow> list_ex (plan_raises W product) sizes \<Longrightarrow>
   snd (product_images W a fonts product sizes st) \<noteq> None"
proof (induction sizes arbitrary: st)
  case Nil
  then show ?case by simp
next
  case (Cons ks sizes)
  obtain kind sz where ks: "ks = (kind, sz)" by (cases ks)
  show ?case
  proof (cases "relative_to_repo W (out_file W (slug product @ ascii ''-'' @ kind @ ascii ''.jpg''))")
    case (Inl e)
    then show ?thesis using Cons.prems(1) by (simp add: ks)
  next
    case (Inr rel)
    then have "\<not> plan_raises W product (kind, sz)"
      by (simp add: plan_raises_def)
    then have "list_ex (plan_raises W product) sizes"
      using Cons.prems(2) by (simp add: ks)
    then show ?thesis
      using Cons.IH [OF Cons.prems(1)] Inr Cons.prems(1) by (simp add: ks)
  qed
qed

lemma product_images_wet:
  "\<not> arg_dry_run a \<Longrightarrow>
   \<exists>st'. product_images W a fonts product sizes st = (st', None) \<and> errors st \<le> errors st' \<and>
     (errors st < errors st' \<longleftrightarrow> list_ex (render_errors W fonts product) sizes)"
proof (induction sizes arbitrary: st)
  case Nil
  then show ?case by simp
next
  case (Cons ks sizes)
  obtain kind sz where ks: "ks = (kind, sz)" by (cases ks)
  let ?dest = "out_file W (slug product @ ascii ''-'' @ kind @ ascii ''.jpg'')"
  let ?label = "slug product @ ascii ''-'' @ kind"
  define tried where "tried =
     (case render_product_image W product ?dest sz kind (fst fonts) (snd fonts) of
        Some e \<Rightarrow> Some e
      | None \<Rightarrow> (case relative_to_repo W ?dest of Inl e \<Rightarrow> Some e | Inr rel \<Rightarrow> None))"
  have this_one: "render_errors W fonts product (kind, sz) \<longleftrightarrow> tried \<noteq> None"
    by (cases "render_product_image W product ?dest sz kind (fst fonts) (snd fonts)";
        cases "relative_to_repo W ?dest")
      (simp_all add: render_errors_def tried_def Let_def)
  show ?case
  proof (cases tried)
    case None
    then have step: "product_images W a fonts product (ks # sizes) st =
        product_images W a fonts product sizes ((report (OK ?label) st)\<lparr> generated := generated st + 1 \<rparr>)"
      using Cons.prems by (simp add: ks tried_def)
    obtain st' where st': "product_images W a fonts product sizes
          ((report (OK ?label) st)\<lparr> generated := generated st + 1 \<rparr>) = (st', None)"
        "errors ((report (OK ?label) st)\<lparr> generated := generated st + 1 \<rparr>) \<le> errors st'"
        "errors ((report (OK ?label) st)\<lparr> generated := generated st + 1 \<rparr>) < errors st' \<longleftrightarrow>
           list_ex (render_errors W fonts product) sizes"
      using Cons.IH [OF Cons.prems] by blast
    have e: "errors ((report (OK ?label) st)\<lparr> generated := generated st + 1 \<rparr>) = errors st"
      by (simp add: report_def)
    show ?thesis
      using step st' this_one None unfolding e by (simp add: ks)
  next
    case (Some exc)
    then have step: "product_images W a fonts product (ks # sizes) st =
        product_images W a fonts product sizes ((report (RenderFailed ?label exc) st)\<lparr> errors := errors st + 1 \<rparr>)"
      using Cons.prems by (simp add: ks tried_def)
    obtain st' where st': "product_images W a fonts product sizes
          ((report (RenderFailed ?label exc) st)\<lparr> errors := errors st + 1 \<rparr>) = (st', None)"
        "errors ((report (RenderFailed ?label exc) st)\<lparr> errors := errors st + 1 \<rparr>) \<le> errors st'"
      using Cons.IH [OF Cons.prems] by blast
    have e: "errors ((report (RenderFailed ?label exc) st)\<lparr> errors := errors st + 1 \<rparr>) = errors st + 1"
      by (simp add: report_def)
    have "errors st < errors st'"
      using st'(2) unfolding e by simp
    then show ?thesis
      using step st'(1) this_one Some by (simp add: ks)
  qed
qed

text \<open>
  One turn of the loop over the product pages: a page that raises ends the loop
  with the exception; any other page leaves the loop running, and it has raised the
  error count exactly when the page errored.
\<close>

lemma page_raises_step:
  "page_raises W a html \<Longrightarrow>
   snd (product_pages W a fonts (selected_sizes a) (html # rest) st) \<noteq> None"
proof (cases "path_exists W html")
  case (Inl e)
  then show ?thesis by simp
next
  case (Inr found)
  assume r: "page_raises W a html"
  with Inr have found: "found" by (simp add: page_raises_def)
  show ?thesis
  proof (cases "parse_product_page W html")
    case (Inl e)
    with r Inr found obtain m where "e = OtherError m"
      by (cases e) (simp_all add: page_raises_def)
    then show ?thesis using Inl Inr found by simp
  next
    case product: (Inr product)
    with r Inr found have "arg_dry_run a" "list_ex (plan_raises W product) (selected_sizes a)"
      by (simp_all add: page_raises_def)
    then have "snd (product_images W a fonts product (selected_sizes a) st) \<noteq> None"
      by (rule product_images_dry_raises)
    then obtain st' e where "product_images W a fonts product (selected_sizes a) st = (st', Some e)"
      by (cases "product_images W a fonts product (selected_sizes a) st") auto
    then show ?thesis using Inr found product by simp
  qed
qed

lemma page_step:
  assumes "\<not> page_raises W a html"
  shows "\<exists>st1. product_pages W a fonts (selected_sizes a) (html # rest) st
             = product_pages W a fonts (selected_sizes a) rest st1 \<and>
           errors st \<le> errors st1 \<and>
           (errors st < errors st1 \<longleftrightarrow> page_errors W a fonts html)"
proof (cases "path_exists W html")
  case (Inl e)
  then show ?thesis using assms by (simp add: page_raises_def)
next
  case (Inr found)
  have counted: ?thesis
    if "product_pages W a fonts (selected_sizes a) (html # rest) st
          = product_pages W a fonts (selected_sizes a) rest ((report ev st)\<lparr> errors := errors st + 1 \<rparr>)"
      and "page_errors W a fonts html" for ev
    using that by (intro exI [of _ "(report ev st)\<lparr> errors := errors st + 1 \<rparr>"]) (simp add: report_def)
  show ?thesis
  proof (cases found)
    case False
    then have "page_errors W a fonts html"
      using Inr by (simp add: page_errors_def page_missing_def)
    then show ?thesis
      using Inr False by (intro counted [of "PageNotFound (path_name W html)"]) simp_all
  next
    case True
    then have ex: "path_exists W html = Inr True" using Inr by simp
    show ?thesis
    proof (cases "parse_product_page W html")
      case (Inl e)
      show ?thesis
      proof (cases e)
        case (ValueError m)
        then have "page_errors W a fonts html"
          using Inl ex by (simp add: page_errors_def parse_fails_def)
        then show ?thesis using ValueError Inl ex
          by (intro counted [of "ParseFailed (path_name W html) (ValueError m)"]) simp_all
      next
        case (FileNotFoundError m)
        then have "page_errors W a fonts html"
          using Inl ex by (simp add: page_errors_def parse_fails_def)
        then show ?thesis using FileNotFoundError Inl ex
          by (intro counted [of "ParseFailed (path_name W html) (FileNotFoundError m)"]) simp_all
      next
        case (OtherError m)
        then show ?thesis using assms Inl ex by (simp add: page_raises_def)
      qed
    next
      case product: (Inr product)
      have pe: "page_errors W a fonts html \<longleftrightarrow>
          \<not> arg_dry_run a \<and> list_ex (render_errors W fonts product) (selected_sizes a)"
        using ex product by (simp add: page_errors_def page_missing_def parse_fails_def render_fails_def)
      have "\<exists>st1. product_images W a fonts product (selected_sizes a) st = (st1, None) \<and>
          errors st \<le> errors st1 \<and> (errors st < errors st1 \<longleftrightarrow> page_errors W a fonts html)"
      proof (cases "arg_dry_run a")
        case True
        then have "\<not> list_ex (plan_raises W product) (selected_sizes a)"
          using assms ex product by (simp add: page_raises_def)
        then obtain st1 where "product_images W a fonts product (selected_sizes a) st = (st1, None)"
            "errors st1 = errors st"
          using product_images_dry_ok [OF True] by blast
        then show ?thesis using True pe by simp
      next
        case False
        then show ?thesis using product_images_wet [OF False] pe by simp
      qed
      then obtain st1 where st1: "product_images W a fonts product (selected_sizes a) st = (st1, None)"
          "errors st \<le> errors st1" "errors st < errors st1 \<longleftrightarrow> page_errors W a fonts html"
        by blast
      then show ?thesis using ex product by (intro exI [of _ st1]) simp
    qed
  qed
qed

text \<open>
  The loop over the product pages lets an exception escape exactly when a page
  raises; when none does it ends normally, and it has raised the error count exactly
  when a page errored.
\<close>

lemma product_pages_raises:
  "list_ex (page_raises W a) htmls \<Longrightarrow>
   snd (product_pages W a fonts (selected_sizes a) htmls st) \<noteq> None"
proof (induction htmls arbitrary: st)
  case Nil
  then show ?case by simp
next
  case (Cons html htmls)
  show ?case
  proof (cases "page_raises W a html")
    case True
    then show ?thesis by (rule page_raises_step)
  next
    case False
    then obtain st1 where "product_pages W a fonts (selected_sizes a) (html # htmls) st
             = product_pages W a fonts (selected_sizes a) htmls st1"
      using page_step [of W a html fonts htmls st] by auto
    moreover have "list_ex (page_raises W a) htmls"
      using Cons.prems False by simp
    ultimately show ?thesis using Cons.IH by simp
  qed
qed

lemma product_pages_returns:
  "\<not> list_ex (page_raises W a) htmls \<Longrightarrow>
   \<exists>st'. product_pages W a fonts (selected_sizes a) htmls st = (st', None) \<and>
     errors st \<le> errors st' \<and>
     (errors st < errors st' \<longleftrightarrow> list_ex (page_errors W a fonts) htmls)"
proof (induction htmls arbitrary: st)
  case Nil
  then show ?case by simp
next
  case (Cons html htmls)
  have this_one: "\<not> page_raises W a html" and rest: "\<not> list_ex (page_raises W a) htmls"
    using Cons.prems by simp_all
  obtain st1 where st1: "product_pages W a fonts (selected_sizes a) (html # htmls) st
             = product_pages W a fonts (selected_sizes a) htmls st1"
      "errors st \<le> errors st1" "errors st < errors st1 \<longleftrightarrow> page_errors W a fonts html"
    using page_step [OF this_one, of fonts htmls st] by auto
  obtain st' where st': "product_pages W a fonts (selected_sizes a) htmls st1 = (st', None)"
      "errors st1 \<le> errors st'"
      "errors st1 < errors st' \<longleftrightarrow> list_ex (page_errors W a fonts) htmls"
    using Cons.IH [OF rest] by blast
  have "errors st < errors st' \<longleftrightarrow> page_errors W a fonts html \<or> list_ex (page_errors W a fonts) htmls"
    using st1(2,3) st'(2,3) by linarith
  then show ?case
    using st1(1,2) st'(1,2) by (intro exI [of _ st']) simp
qed

text \<open>
  How a run ends when the fonts are found: with an exception when one escapes, and
  otherwise with the summary and the status 1 or 0 as an item errored or not.
\<close>

lemma main_outcome:
  assumes fonts: "load_fonts W = Inr fonts"
  shows "(exception_escapes W a fonts \<longrightarrow> (\<exists>st e. main W a = (st, Raised e))) \<and>
     (\<not> exception_escapes W a fonts \<longrightarrow>
        (\<exists>st. main W a = (summary st, Return (if item_errored W a fonts then 1 else 0)) \<and>
              (errors st \<noteq> 0 \<longleftrightarrow> item_errored W a fonts)))"
proof (cases "parse_site_tagline W")
  case (Inl e)
  then show ?thesis using fonts by (simp add: main_def Let_def exception_escapes_def)
next
  case tagline: (Inr tagline)
  define st0 where "st0 = \<lparr> generated = 0, errors = 0, logged = [] \<rparr>"
  define site where "site = (if site_selected a
      then site_images W a fonts tagline (selected_sizes a) st0 else (st0, None))"
  have m1: "main W a =
    (case site of
       (st, Some e) \<Rightarrow> (st, Raised e)
     | (st, None) \<Rightarrow>
        if arg_site_only a then (summary st, Return 0)
        else
          (case selected_pages W a of
             None \<Rightarrow> (summary st, Return 0)
           | Some html_files \<Rightarrow>
               (case product_pages W a fonts (selected_sizes a) html_files st of
                  (st, Some e) \<Rightarrow> (st, Raised e)
                | (st, None) \<Rightarrow> (summary st, Return (if errors st \<noteq> 0 then 1 else 0)))))"
    by (simp only: main_def Let_def fonts tagline sum.case site_def st0_def)
  show ?thesis
  proof (cases "site_selected a \<and> list_ex (site_image_raises W a fonts tagline) (selected_sizes a)")
    case True
    then obtain st1 e where "site = (st1, Some e)"
      using site_images_raises [of W a fonts tagline "selected_sizes a" st0]
      by (cases "site_images W a fonts tagline (selected_sizes a) st0") (auto simp: site_def)
    then show ?thesis using m1 True tagline by (simp add: exception_escapes_def)
  next
    case False
    have e0: "errors st0 = 0" by (simp add: st0_def)
    have "\<exists>st1. site = (st1, None) \<and> errors st1 = 0"
    proof (cases "site_selected a")
      case True
      then show ?thesis
        using False site_images_ok [of W a fonts tagline "selected_sizes a" st0] e0
        by (simp add: site_def)
    next
      case False
      then show ?thesis using e0 by (simp add: site_def)
    qed
    then obtain st1 where s1: "site = (st1, None)" and e1: "errors st1 = 0"
      by blast
    have m2: "main W a =
        (if arg_site_only a then (summary st1, Return 0)
         else (case selected_pages W a of
             None \<Rightarrow> (summary st1, Return 0)
           | Some html_files \<Rightarrow>
               (case product_pages W a fonts (selected_sizes a) html_files st1 of
                  (st, Some e) \<Rightarrow> (st, Raised e)
                | (st, None) \<Rightarrow> (summary st, Return (if errors st \<noteq> 0 then 1 else 0)))))"
      using m1 s1 by simp
    show ?thesis
    proof (cases "arg_site_only a")
      case True
      then have "\<not> exception_escapes W a fonts" "\<not> item_errored W a fonts"
        using False tagline by (simp_all add: exception_escapes_def item_errored_def)
      then show ?thesis using m2 True e1 by auto
    next
      case not_only: False
      show ?thesis
      proof (cases "selected_pages W a")
        case None
        then have "\<not> exception_escapes W a fonts" "\<not> item_errored W a fonts"
          using False tagline by (simp_all add: exception_escapes_def item_errored_def)
        then show ?thesis using m2 not_only None e1 by auto
      next
        case (Some html_files)
        have esc: "exception_escapes W a fonts \<longleftrightarrow> list_ex (page_raises W a) html_files"
          using False not_only Some tagline by (auto simp: exception_escapes_def)
        have item: "item_errored W a fonts \<longleftrightarrow> list_ex (page_errors W a fonts) html_files"
          using not_only Some by (simp add: item_errored_def)
        have m3: "main W a =
               (case product_pages W a fonts (selected_sizes a) html_files st1 of
                  (st, Some e) \<Rightarrow> (st, Raised e)
                | (st, None) \<Rightarrow> (summary st, Return (if errors st \<noteq> 0 then 1 else 0)))"
          unfolding m2 using not_only Some by (simp only: if_False option.case)
        show ?thesis
        proof (cases "list_ex (page_raises W a) html_files")
          case True
          then obtain st2 e where "product_pages W a fonts (selected_sizes a) html_files st1 = (st2, Some e)"
            using product_pages_raises [of W a html_files fonts st1]
            by (cases "product_pages W a fonts (selected_sizes a) html_files st1") auto
          then show ?thesis using m3 True esc by simp
        next
          case no_raise: False
          then obtain st2 where st2: "product_pages W a fonts (selected_sizes a) html_files st1 = (st2, None)"
              "errors st1 < errors st2 \<longleftrightarrow> list_ex (page_errors W a fonts) html_files"
            using product_pages_returns [of W a html_files fonts st1] by blast
          have "errors st2 \<noteq> 0 \<longleftrightarrow> item_errored W a fonts"
            using st2(2) e1 item by simp
          then show ?thesis using m3 st2(1) no_raise esc by auto
        qed
      qed
    qed
  qed
qed

text \<open>The example environments and command lines, evaluated.\<close>

lemmas main_eval = main_def load_fonts_def find_font_file_def regular_fonts_def bold_fonts_def
  parse_site_tagline_def selected_sizes_def SIZES_def site_selected_def selected_pages_def
  demo_site_def no_fonts_def out_of_repo_def one_product_def two_products_def dry_product_def
  long_product_def dejavu_def
  page_env.extend_def page_env.defs main_env.defs report_def summary_def

lemmas page_eval = parse_product_page_def demo_pages_def demo_exists_def demo_soup_def title_tag_def
  text_tag_def py_or_def ascii_def strip_def lstrip_ws_def rstrip_ws_def py_isspace_def Let_def

lemmas item_eval = item_errored_def page_errors_def page_missing_def parse_fails_def
  render_fails_def render_errors_def exception_escapes_def page_raises_def plan_raises_def
  site_image_raises_def

lemma demo_fonts_found:
  "load_fonts demo_site = Inr dejavu" "load_fonts out_of_repo = Inr dejavu"
  by (simp_all add: main_eval ascii_def)

lemma no_fonts_missing:
  "load_fonts no_fonts = Inl (FileNotFoundError (ascii ''No usable font found among: C:/Windows/Fonts/segoeui.ttf, C:/Windows/Fonts/arial.ttf, /usr/share/fonts/truetype/dejavu/DejaVuSans.ttf, /Library/Fonts/Arial Unicode.ttf, /Library/Fonts/Arial.ttf''))"
  by (simp add: main_eval ascii_def)

lemma demo_tagline:
  "parse_site_tagline demo_site = Inr default_tagline"
  "parse_site_tagline out_of_repo = Inr default_tagline"
  by (simp_all add: main_eval demo_pages_def demo_exists_def ascii_def)

lemma demo_selected:
  "selected_pages demo_site one_product = Some [ascii ''rad-140.html'']"
  "selected_pages no_fonts one_product = Some [ascii ''rad-140.html'']"
  "selected_pages out_of_repo one_product = Some [ascii ''rad-140.html'']"
  "selected_pages out_of_repo dry_product = Some [ascii ''rad-140.html'']"
  "selected_pages demo_site two_products = Some [ascii ''nope.html'', ascii ''rad-140.html'']"
  "selected_pages demo_site long_product = Some [ascii ''long-img.html'']"
  by (simp_all add: main_eval ascii_def strip_def lstrip_ws_def rstrip_ws_def py_isspace_def)

lemma args_facts:
  "\<not> arg_site_only two_products" "\<not> arg_site_only one_product" "\<not> arg_site_only dry_product"
  "\<not> arg_site_only long_product"
  "\<not> site_selected one_product" "\<not> site_selected two_products" "\<not> site_selected dry_product"
  "\<not> site_selected long_product"
  "\<not> arg_dry_run one_product" "\<not> arg_dry_run two_products" "arg_dry_run dry_product"
  "\<not> arg_dry_run long_product"
  "selected_sizes one_product = [(ascii ''og'', (1200, 630))]"
  "selected_sizes two_products = [(ascii ''og'', (1200, 630))]"
  "selected_sizes dry_product = [(ascii ''og'', (1200, 630))]"
  "selected_sizes long_product = [(ascii ''og'', (1200, 630))]"
  by (simp_all add: two_products_def one_product_def dry_product_def long_product_def
      site_selected_def selected_sizes_def SIZES_def ascii_def)

lemmas env_eval = demo_site_def no_fonts_def out_of_repo_def page_env.extend_def page_env.defs
  main_env.defs

lemma demo_page_exists:
  "path_exists demo_site (ascii ''nope.html'') = Inr False"
  "path_exists demo_site (ascii ''rad-140.html'') = Inr True"
  "path_exists no_fonts (ascii ''rad-140.html'') = Inr True"
  "path_exists out_of_repo (ascii ''rad-140.html'') = Inr True"
  "path_exists demo_site (ascii ''long-img.html'') = Inr True"
  by (simp_all add: env_eval demo_pages_def demo_exists_def ascii_def)

lemma rad_140_page:
  "parse_product_page demo_site (ascii ''rad-140.html'') = Inr rad_140"
  "parse_product_page no_fonts (ascii ''rad-140.html'') = Inr rad_140"
  "parse_product_page out_of_repo (ascii ''rad-140.html'') = Inr rad_140"
  by (simp_all add: env_eval page_eval rad_140_def)

lemma long_img_page:
  "parse_product_page demo_site (ascii ''long-img.html'')
     = Inl (OtherError (ascii ''[Errno 36] File name too long: '' @ [0x27] @
              replicate 300 0x61 @ ascii ''.png'' @ [0x27]))"
  by (simp add: env_eval page_eval)


lemma demo_renders:
  "render_product_image demo_site product dest sz kind regular bold = None"
  "render_product_image out_of_repo product dest sz kind regular bold = None"
  "render_product_image no_fonts product dest sz kind regular bold = None"
  "relative_to_repo demo_site p = Inr p"
  "relative_to_repo no_fonts p = Inr p"
  "relative_to_repo out_of_repo p = Inl (not_in_subpath p)"
  "out_file out_of_repo n = ascii ''/tmp/out/'' @ n"
  by (simp_all add: env_eval)

lemma demo_items:
  "item_errored demo_site two_products dejavu"
  "\<not> exception_escapes demo_site two_products dejavu"
  "\<not> item_errored demo_site one_product dejavu"
  "\<not> exception_escapes demo_site one_product dejavu"
  "\<not> item_errored out_of_repo dry_product dejavu"
  "exception_escapes out_of_repo dry_product dejavu"
  "item_errored out_of_repo one_product dejavu"
  "\<not> exception_escapes out_of_repo one_product dejavu"
  "\<not> item_errored no_fonts one_product dejavu"
  "\<not> item_errored demo_site long_product dejavu"
  "exception_escapes demo_site long_product dejavu"
  by (simp_all add: item_eval demo_selected args_facts demo_page_exists rad_140_page long_img_page
      demo_tagline demo_renders)

lemma no_fonts_run:
  "\<not> list_ex is_item_error (logged (fst (main no_fonts one_product)))"
  "errors (fst (main no_fonts one_product)) = 0"
  "snd (main no_fonts one_product) = Return 1"
  by (simp_all add: main_def no_fonts_missing Let_def report_def)

lemma dry_run_out_of_repo:
  "main out_of_repo dry_product =
     (\<lparr> generated = 0, errors = 0, logged = [] \<rparr>,
      Raised (not_in_subpath (ascii ''/tmp/out/rad-140-og.jpg'')))"
proof -
  have "main out_of_repo dry_product =
     (\<lparr> generated = 0, errors = 0, logged = [] \<rparr>,
      Raised (not_in_subpath (ascii ''/tmp/out/'' @ ascii ''rad-140'' @ ascii ''-'' @ ascii ''og'' @
        ascii ''.jpg'')))"
    by (simp add: main_def demo_fonts_found demo_tagline demo_selected args_facts demo_page_exists
      rad_140_page demo_renders Let_def rad_140_def)
  then show ?thesis by (simp add: ascii_def)
qed
text \<open>
  Claim C7, as amended: the exit status of the driver is non-zero whenever an item
  errored, whatever the other items did; an item errors when a selected product page
  is missing, when parsing it fails with a \<open>ValueError\<close> or a \<open>FileNotFoundError\<close>, or
  when, outside a dry run, the rendering of one of its images or the log line of the
  finished image raises.  The exit status is non-zero in two more cases, and in no
  other: when the fonts cannot be loaded, and when an exception escapes \<open>main\<close>.  An
  exception escapes exactly when \<open>Path(candidate).exists()\<close> raises in \<open>load_fonts\<close>, or
  reading \<open>index.html\<close> for the tagline raises, or a site image raises (its rendering, or
  \<open>dest.relative_to(repo_root)\<close> also in a dry run), or \<open>html.exists()\<close> raises, or
  parsing a page raises another exception than the two above, or in a dry run
  \<open>dest.relative_to(repo_root)\<close> raises for a product image, as it does when \<open>--out\<close> is a
  directory outside the repository.  So with the fonts found and no exception escaping,
  \<open>main\<close> returns 1 when an item errored and 0 when none did, and its counter \<open>errors\<close>
  is not zero exactly when an item errored.
\<close>

theorem main_exit_status:
  "(exit_status (snd (main W a)) \<noteq> 0 \<longleftrightarrow>
     (case load_fonts W of
        Inl e \<Rightarrow> True
      | Inr fonts \<Rightarrow> exception_escapes W a fonts \<or> item_errored W a fonts)) \<and>
   ((\<exists>e. snd (main W a) = Raised e) \<longleftrightarrow>
     (case load_fonts W of
        Inl (FileNotFoundError m) \<Rightarrow> False
      | Inl e \<Rightarrow> True
      | Inr fonts \<Rightarrow> exception_escapes W a fonts)) \<and>
   (\<forall>fonts. load_fonts W = Inr fonts \<and> \<not> exception_escapes W a fonts \<longrightarrow>
      snd (main W a) = Return (if item_errored W a fonts then 1 else 0) \<and>
      (errors (fst (main W a)) \<noteq> 0 \<longleftrightarrow> item_errored W a fonts))"
proof (cases "load_fonts W")
  case (Inl e)
  then show ?thesis by (cases e) (simp_all add: main_def Let_def)
next
  case (Inr fonts)
  note out = main_outcome [OF Inr, of a]
  show ?thesis
  proof (cases "exception_escapes W a fonts")
    case True
    then obtain st e where "main W a = (st, Raised e)"
      using out by blast
    then show ?thesis using True Inr by simp
  next
    case False
    then obtain st where "main W a = (summary st, Return (if item_errored W a fonts then 1 else 0))"
        "errors st \<noteq> 0 \<longleftrightarrow> item_errored W a fonts"
      using out by blast
    then show ?thesis using False Inr by (simp add: summary_def report_def)
  qed
qed

theorem main_exit_status_witness:
  "load_fonts demo_site = Inr dejavu \<and> load_fonts out_of_repo = Inr dejavu \<and>
   item_errored demo_site two_products dejavu \<and>
   \<not> exception_escapes demo_site two_products dejavu \<and>
   snd (main demo_site two_products) = Return 1 \<and>
   \<not> item_errored demo_site one_product dejavu \<and>
   \<not> exception_escapes demo_site one_product dejavu \<and>
   snd (main demo_site one_product) = Return 0 \<and>
   item_errored out_of_repo one_product dejavu \<and>
   \<not> exception_escapes out_of_repo one_product dejavu \<and>
   snd (main out_of_repo one_product) = Return 1 \<and>
   \<not> item_errored out_of_repo dry_product dejavu \<and>
   exception_escapes out_of_repo dry_product dejavu \<and>
   (\<exists>e. snd (main out_of_repo dry_product) = Raised e) \<and>
   exit_status (snd (main out_of_repo dry_product)) \<noteq> 0 \<and>
   \<not> item_errored demo_site long_product dejavu \<and>
   (\<exists>e. snd (main demo_site long_product) = Raised e) \<and>
   exit_status (snd (main demo_site long_product)) \<noteq> 0"
  using main_exit_status [of demo_site two_products] main_exit_status [of demo_site one_product]
    main_exit_status [of out_of_repo one_product] main_exit_status [of out_of_repo dry_product]
    main_exit_status [of demo_site long_product]
    demo_fonts_found demo_items
  by simp

text \<open>
  Two runs that end with status 1 although no item errored.  Without fonts the run
  \<open>--product rad-140 --format og\<close> returns 1: the page is there, it parses, its image
  would render, no item error is logged and \<open>errors\<close> is 0.  With the fonts and
  \<open>--out /tmp/out\<close>, the run \<open>--product rad-140 --format og --dry-run\<close> ends with the
  \<open>ValueError\<close> of \<open>dest.relative_to(repo_root)\<close>: nothing is logged and \<open>errors\<close> is 0.
\<close>

theorem main_without_fonts_exits_nonzero:
  "\<not> item_errored no_fonts one_product dejavu \<and>
   \<not> list_ex is_item_error (logged (fst (main no_fonts one_product))) \<and>
   errors (fst (main no_fonts one_product)) = 0 \<and>
   exit_status (snd (main no_fonts one_product)) = 1 \<and>
   \<not> item_errored out_of_repo dry_product dejavu \<and>
   logged (fst (main out_of_repo dry_product)) = [] \<and>
   errors (fst (main out_of_repo dry_product)) = 0 \<and>
   exit_status (snd (main out_of_repo dry_product)) = 1"
  using no_fonts_run demo_items(5,9) dry_run_out_of_repo by simp

end
